theory Spec2Isabelle
  imports Complex_Main "HOL-Library.Word" "HOL-Library.Log_Nat"
begin

section \<open>The music player component: playback controller and frequency visualiser\<close>

text \<open>
  The development embeds \<^verbatim>\<open>src/frontend/src/components/MusicPlayer.jsx\<close>: the React
  state of the component, the audio element it owns, the handlers wired to the controls and
  the canvas render loop. Every handler invocation is one transition of the component state,
  taken on the state of the latest render (React re-renders between two discrete events, so a
  handler always sees the values written by the previous one). Calls into the browser are
  recorded, in order, in a trace of effects.
\<close>

subsection \<open>JavaScript numbers\<close>

text \<open>
  A number is NaN, an infinity or a finite value, a rational. The sign of zero is not
  modelled. \<open>jadd\<close>, \<open>jsub\<close>, \<open>jmul\<close> and \<open>jdiv\<close> compute on finite values without rounding: they
  serve the render loop, whose values at the 128 bins of the analyser (half-integers, multiples
  of 1/256 below \<open>2^53\<close>) are doubles that the operations of the code produce exactly.
  \<open>round_double\<close> rounds a rational to the nearest binary64 value, ties to even, with gradual
  underflow and overflow to infinity; \<open>dmul\<close> and \<open>ddiv\<close> are the rounded product and quotient of
  doubles, which the seek target and the progress are computed with.
\<close>

datatype jsnum = NaN | PInf | NInf | Fin rat

fun jneg :: "jsnum \<Rightarrow> jsnum" where
  "jneg NaN = NaN"
| "jneg PInf = NInf"
| "jneg NInf = PInf"
| "jneg (Fin a) = Fin (- a)"

fun jadd :: "jsnum \<Rightarrow> jsnum \<Rightarrow> jsnum" where
  "jadd (Fin a) (Fin b) = Fin (a + b)"
| "jadd NaN y = NaN"
| "jadd x NaN = NaN"
| "jadd PInf NInf = NaN"
| "jadd NInf PInf = NaN"
| "jadd (Fin a) y = y"
| "jadd x y = x"

definition jsub :: "jsnum \<Rightarrow> jsnum \<Rightarrow> jsnum" where
  "jsub x y = jadd x (jneg y)"

text \<open>An infinity times a finite factor: NaN at zero, the sign follows the factor.\<close>

definition scale_inf :: "jsnum \<Rightarrow> rat \<Rightarrow> jsnum" where
  "scale_inf i a = (if a = 0 then NaN else if 0 < a then i else jneg i)"

fun jmul :: "jsnum \<Rightarrow> jsnum \<Rightarrow> jsnum" where
  "jmul (Fin a) (Fin b) = Fin (a * b)"
| "jmul NaN y = NaN"
| "jmul x NaN = NaN"
| "jmul (Fin a) y = scale_inf y a"
| "jmul x (Fin b) = scale_inf x b"
| "jmul x y = (if x = y then PInf else NInf)"

fun jdiv :: "jsnum \<Rightarrow> jsnum \<Rightarrow> jsnum" where
  "jdiv (Fin a) (Fin b) =
     (if b = 0 then (if a = 0 then NaN else if 0 < a then PInf else NInf) else Fin (a / b))"
| "jdiv NaN y = NaN"
| "jdiv x NaN = NaN"
| "jdiv (Fin a) y = Fin 0"
| "jdiv x (Fin b) = (if 0 \<le> b then x else jneg x)"
| "jdiv x y = NaN"

text \<open>
  The binary exponent of a positive rational: \<open>2 powi floorlog2 x \<le> x < 2 powi (floorlog2 x + 1)\<close>.
\<close>

definition floorlog2 :: "rat \<Rightarrow> int" where
  "floorlog2 x =
     (let (a, b) = quotient_of x; k = bitlen a - bitlen b
      in if 2 powi k \<le> x then k else k - 1)"

definition round_half_even :: "rat \<Rightarrow> int" where
  "round_half_even z =
     (let f = \<lfloor>z\<rfloor>; r = z - of_int f
      in if r < 1 / 2 then f else if 1 / 2 < r then f + 1 else if even f then f else f + 1)"

text \<open>
  The exponent of the last bit of the 53-bit significand of a double next to \<open>a\<close>, not below
  that of the subnormal numbers, and the bound from which rounded values are infinite.
\<close>

definition exponent :: "rat \<Rightarrow> int" where
  "exponent a = max (floorlog2 a - 52) (- 1074)"

definition overflow :: rat where
  "overflow = 2 ^ 1024"

definition round_double :: "rat \<Rightarrow> jsnum" where
  "round_double x =
     (if x = 0 then Fin 0
      else
        (let a = \<bar>x\<bar>;
             e = exponent a;
             r = of_int (round_half_even (a / 2 powi e)) * 2 powi e
         in if overflow \<le> r then (if 0 < x then PInf else NInf)
            else Fin (if 0 < x then r else - r)))"

definition rounded :: "jsnum \<Rightarrow> jsnum" where
  "rounded x = (case x of Fin a \<Rightarrow> round_double a | _ \<Rightarrow> x)"

definition dmul :: "jsnum \<Rightarrow> jsnum \<Rightarrow> jsnum" where
  "dmul x y = rounded (jmul x y)"

definition ddiv :: "jsnum \<Rightarrow> jsnum \<Rightarrow> jsnum" where
  "ddiv x y = rounded (jdiv x y)"

subsection \<open>Browser objects\<close>

type_synonym byte = "8 word"

datatype exn = TypeError | InvalidStateError | IndexSizeError

text \<open>The two arrow functions the mount effect registers on the audio element.\<close>

datatype listener = TimeUpdateListener | EndedListener

text \<open>
  The audio element behind \<^verbatim>\<open>audioRef.current\<close>. \<open>duration\<close> is NaN until the metadata of a
  playable source has been loaded; \<open>tapped\<close> says that a media element source node has been
  created for the element already.
\<close>

record audio_element =
  src :: "string option"
  el_volume :: rat
  controls :: bool
  duration :: jsnum
  currentTime :: rat
  tapped :: bool
  listeners :: "(string \<times> listener) list"

text \<open>\<^verbatim>\<open>new Audio()\<close>.\<close>

definition new_Audio :: audio_element where
  "new_Audio = \<lparr> src = None, el_volume = 1, controls = False, duration = NaN,
                 currentTime = 0, tapped = False, listeners = [] \<rparr>"

text \<open>
  Assigning \<^verbatim>\<open>volume\<close>: the attribute is a double restricted to the range from 0 to 1, a
  value outside raises IndexSizeError.
\<close>

definition set_volume :: "rat \<Rightarrow> audio_element \<Rightarrow> exn + audio_element" where
  "set_volume v el = (if 0 \<le> v \<and> v \<le> 1 then Inr (el\<lparr>el_volume := v\<rparr>) else Inl IndexSizeError)"

text \<open>
  Assigning \<^verbatim>\<open>currentTime\<close>: the attribute has the IDL type double, so a value that is not
  finite raises TypeError before anything is changed. A finite value seeks: with a known
  duration the position is brought into the range of the media, without one it becomes the
  default start position that \<^verbatim>\<open>currentTime\<close> then reads back.
\<close>

definition set_currentTime :: "jsnum \<Rightarrow> audio_element \<Rightarrow> exn + audio_element" where
  "set_currentTime t el =
     (case t of
        Fin x \<Rightarrow> Inr (el\<lparr>currentTime := (case duration el of Fin d \<Rightarrow> max 0 (min d x) | _ \<Rightarrow> x)\<rparr>)
      | _ \<Rightarrow> Inl TypeError)"

record canvas =
  width :: nat
  height :: nat

datatype audio_context = AudioContext

record analyser_node =
  fftSize :: nat

datatype source_node = MediaElementSource

definition frequencyBinCount :: "analyser_node \<Rightarrow> nat" where
  "frequencyBinCount a = fftSize a div 2"

record node =
  node_id :: nat
  tag :: string
  href :: string
  download :: string

text \<open>The string \<^verbatim>\<open>rgb(r, g, b)\<close> with the three numbers interpolated.\<close>

datatype fillStyle = Rgb jsnum jsnum jsnum

datatype effect =
    Warn string
  | NewAudioContext
  | CreateAnalyser
  | CreateMediaElementSource
  | ConnectSourceToAnalyser
  | ConnectAnalyserToDestination
  | Play
  | Pause
  | RequestAnimationFrame
  | ClearRect jsnum jsnum jsnum jsnum
  | SetFillStyle fillStyle
  | FillRect jsnum jsnum jsnum jsnum
  | Click node

subsection \<open>The render loop\<close>

text \<open>
  The closure \<^verbatim>\<open>draw\<close> that \<^verbatim>\<open>visualize\<close> creates: the constant \<^verbatim>\<open>bufferLength\<close> and the
  typed array \<^verbatim>\<open>dataArray\<close>. The canvas is the shared element of the component.
\<close>

record draw_loop =
  bufferLength :: nat
  dataArray :: "byte list"

text \<open>
  \<^verbatim>\<open>analyser.getByteFrequencyData(array)\<close> copies the current frequency data \<open>frame\<close> of the
  analyser into the array: surplus data is dropped, surplus array elements keep their value.
\<close>

definition getByteFrequencyData :: "byte list \<Rightarrow> byte list \<Rightarrow> byte list" where
  "getByteFrequencyData frame array = take (length array) frame @ drop (length frame) array"

text \<open>\<^verbatim>\<open>dataArray[i]\<close> as a number: an index out of range reads \<^verbatim>\<open>undefined\<close>, which is NaN in arithmetic.\<close>

definition index :: "byte list \<Rightarrow> nat \<Rightarrow> jsnum" where
  "index xs i = (if i < length xs then Fin (of_nat (unat (xs ! i))) else NaN)"

text \<open>The \<^verbatim>\<open>for\<close> loop of \<^verbatim>\<open>draw\<close>, from index \<open>i\<close> and abscissa \<open>x\<close> on.\<close>

function bars :: "canvas \<Rightarrow> draw_loop \<Rightarrow> jsnum \<Rightarrow> nat \<Rightarrow> jsnum \<Rightarrow> effect list" where
  "bars c l barWidth i x =
     (if i < bufferLength l then
        (let barHeight = jdiv (index (dataArray l) i) (Fin 2) in
           SetFillStyle (Rgb (jadd barHeight (Fin 100)) (Fin 50) (Fin 200))
         # FillRect x (jsub (Fin (of_nat (height c))) barHeight) barWidth barHeight
         # bars c l barWidth (i + 1) (jadd x (jadd barWidth (Fin 1))))
      else [])"
  by pat_completeness auto
termination
  by (relation "measure (\<lambda>(c, l, barWidth, i, x). bufferLength l - i)") auto

declare bars.simps [simp del]

text \<open>One call of \<^verbatim>\<open>draw\<close>, with \<open>frame\<close> the frequency data the analyser holds at that moment.\<close>

definition draw :: "byte list \<Rightarrow> canvas \<Rightarrow> draw_loop \<Rightarrow> draw_loop \<times> effect list" where
  "draw frame c l =
     (let l' = l\<lparr>dataArray := getByteFrequencyData frame (dataArray l)\<rparr>;
          barWidth = jmul (jdiv (Fin (of_nat (width c))) (Fin (of_nat (bufferLength l)))) (Fin (5 / 2))
      in (l', RequestAnimationFrame
              # ClearRect (Fin 0) (Fin 0) (Fin (of_nat (width c))) (Fin (of_nat (height c)))
              # bars c l' barWidth 0 (Fin 0)))"

text \<open>The animation frames after the first: the loop state, and what each frame draws.\<close>

fun loop_after :: "canvas \<Rightarrow> draw_loop \<Rightarrow> byte list list \<Rightarrow> draw_loop" where
  "loop_after c l [] = l"
| "loop_after c l (f # fs) = loop_after c (fst (draw f c l)) fs"

fun animate :: "canvas \<Rightarrow> draw_loop \<Rightarrow> byte list list \<Rightarrow> effect list list" where
  "animate c l [] = []"
| "animate c l (f # fs) = snd (draw f c l) # animate c (fst (draw f c l)) fs"

text \<open>
  The rectangles a sequence of canvas calls paints: \<^verbatim>\<open>fillRect\<close> paints with the fill style
  assigned last (\<open>s\<close> is the style in force at the start).
\<close>

record rect =
  fill :: "fillStyle option"
  rx :: jsnum
  ry :: jsnum
  rw :: jsnum
  rh :: jsnum

fun rects :: "fillStyle option \<Rightarrow> effect list \<Rightarrow> rect list" where
  "rects s [] = []"
| "rects s (SetFillStyle s' # es) = rects (Some s') es"
| "rects s (FillRect x y w h # es) = \<lparr> fill = s, rx = x, ry = y, rw = w, rh = h \<rparr> # rects s es"
| "rects s (e # es) = rects s es"

subsection \<open>The component\<close>

text \<open>\<^verbatim>\<open>localStorage.getItem(key)\<close> on the stored key-value pairs; \<open>None\<close> is \<^verbatim>\<open>null\<close>.\<close>

definition getItem :: "(string \<times> string) list \<Rightarrow> string \<Rightarrow> string option" where
  "getItem storage key = map_of storage key"

record player =
  localStorage :: "(string \<times> string) list"
  innerWidth :: nat
  audio_api :: bool
  body :: "node list"
  next_id :: nat
  trace :: "effect list"
  canvasRef :: "canvas option"
  audioRef :: audio_element
  audioCtx :: "audio_context option"
  analyser :: "analyser_node option"
  source :: "source_node option"
  isPlaying :: bool
  volume :: rat
  progress :: jsnum
  loops :: "draw_loop list"

text \<open>
  The component after its first render, in a page with the given storage and viewport width
  on a platform that has the audio API: the initial values of the \<^verbatim>\<open>useRef\<close> and
  \<^verbatim>\<open>useState\<close> calls, the canvas element attached with the default size of a canvas.
\<close>

definition initial :: "(string \<times> string) list \<Rightarrow> nat \<Rightarrow> player" where
  "initial storage w =
     \<lparr> localStorage = storage, innerWidth = w, audio_api = True, body = [], next_id = 0,
       trace = [], canvasRef = Some \<lparr> width = 300, height = 150 \<rparr>, audioRef = new_Audio,
       audioCtx = None, analyser = None, source = None, isPlaying = False, volume = 1,
       progress = Fin 0, loops = [] \<rparr>"

definition emit :: "effect \<Rightarrow> player \<Rightarrow> player" where
  "emit e st = st\<lparr>trace := trace st @ [e]\<rparr>"

text \<open>\<^verbatim>\<open>!audioUrl\<close>: null and the empty string are falsy.\<close>

definition falsy :: "string option \<Rightarrow> bool" where
  "falsy u = (u = None \<or> u = Some [])"

text \<open>The listeners and the dispatch of a native event of the audio element.\<close>

fun run_listener :: "listener \<Rightarrow> player \<Rightarrow> player" where
  "run_listener TimeUpdateListener st =
     st\<lparr>progress := dmul (ddiv (Fin (currentTime (audioRef st))) (duration (audioRef st))) (Fin 100)\<rparr>"
| "run_listener EndedListener st = st\<lparr>isPlaying := False\<rparr>"

definition dispatchEvent :: "string \<Rightarrow> player \<Rightarrow> player" where
  "dispatchEvent name st =
     fold run_listener (map snd (filter (\<lambda>p. fst p = name) (listeners (audioRef st)))) st"

text \<open>The mount effect (\<^verbatim>\<open>useEffect\<close> with no dependencies).\<close>

definition mount :: "player \<Rightarrow> exn option \<times> player" where
  "mount st =
     (let audioUrl = getItem (localStorage st) ''audioSrc'' in
      if falsy audioUrl then (None, emit (Warn ''No audio URL found in localStorage'') st)
      else
        (case set_volume (volume st) ((audioRef st)\<lparr>src := audioUrl\<rparr>) of
           Inl e \<Rightarrow> (Some e, st\<lparr>audioRef := (audioRef st)\<lparr>src := audioUrl\<rparr>\<rparr>)
         | Inr el \<Rightarrow>
             (None, st\<lparr>audioRef := el\<lparr>controls := False,
                          listeners := listeners el @ [(''timeupdate'', TimeUpdateListener),
                                                       (''ended'', EndedListener)]\<rparr>\<rparr>)))"

text \<open>
  \<^verbatim>\<open>visualize(analyser)\<close>: sizes the canvas, allocates the buffer and makes the first call of
  \<^verbatim>\<open>draw\<close>, which sees the frequency data \<open>frame\<close>. The width of a canvas is an
  integer, the assigned product is truncated.
\<close>

definition visualize :: "byte list \<Rightarrow> analyser_node \<Rightarrow> player \<Rightarrow> player" where
  "visualize frame a st =
     (case canvasRef st of
        None \<Rightarrow> st
      | Some canvas \<Rightarrow>
          (let c = canvas\<lparr>width := (innerWidth st * 9) div 10, height := 300\<rparr>;
               l = \<lparr> bufferLength = frequencyBinCount a,
                     dataArray = replicate (frequencyBinCount a) 0 \<rparr>;
               (l', ops) = draw frame c l
           in st\<lparr>canvasRef := Some c, loops := loops st @ [l'], trace := trace st @ ops\<rparr>))"

text \<open>
  \<^verbatim>\<open>handlePlayPause\<close>. Without an audio context class the \<^verbatim>\<open>new\<close> expression raises
  TypeError; \<^verbatim>\<open>createMediaElementSource\<close> raises InvalidStateError on an element that has a
  source node already. \<open>frame\<close> is the frequency data seen by the first call of \<^verbatim>\<open>draw\<close>.
\<close>

definition handlePlayPause :: "byte list \<Rightarrow> player \<Rightarrow> exn option \<times> player" where
  "handlePlayPause frame st =
     (case
        (if audioCtx st = None then
           (if \<not> audio_api st then (Some TypeError, st)
            else
              (let st1 = emit CreateAnalyser (emit NewAudioContext st);
                   analyserNode = \<lparr> fftSize = 256 \<rparr>
               in if tapped (audioRef st1) then (Some InvalidStateError, st1)
                  else
                    (let st2 = emit CreateMediaElementSource
                                 (st1\<lparr>audioRef := (audioRef st1)\<lparr>tapped := True\<rparr>\<rparr>);
                         st3 = emit ConnectAnalyserToDestination (emit ConnectSourceToAnalyser st2);
                         st4 = st3\<lparr>audioCtx := Some AudioContext,
                                  analyser := Some analyserNode,
                                  source := Some MediaElementSource\<rparr>
                     in (None, visualize frame analyserNode st4))))
         else (None, st))
      of
        (Some e, st') \<Rightarrow> (Some e, st')
      | (None, st') \<Rightarrow>
          (None, (if isPlaying st then emit Pause st' else emit Play st')
                   \<lparr>isPlaying := \<not> isPlaying st\<rparr>))"

text \<open>
  \<^verbatim>\<open>handleVolumeChange\<close> and \<^verbatim>\<open>handleProgressChange\<close>; \<open>v\<close> is the number that the value
  string of the slider denotes. The seek target is computed in doubles: the quotient is
  rounded, then the product.
\<close>

definition handleVolumeChange :: "rat \<Rightarrow> player \<Rightarrow> exn option \<times> player" where
  "handleVolumeChange newVolume st =
     (let st1 = st\<lparr>volume := newVolume\<rparr> in
      case set_volume newVolume (audioRef st1) of
        Inl e \<Rightarrow> (Some e, st1)
      | Inr el \<Rightarrow> (None, st1\<lparr>audioRef := el\<rparr>))"

definition handleProgressChange :: "rat \<Rightarrow> player \<Rightarrow> exn option \<times> player" where
  "handleProgressChange v st =
     (let newTime = dmul (ddiv (Fin v) (Fin 100)) (duration (audioRef st)) in
      case set_currentTime newTime (audioRef st) of
        Inl e \<Rightarrow> (Some e, st)
      | Inr el \<Rightarrow> (None, st\<lparr>audioRef := el, progress := Fin v\<rparr>))"

text \<open>
  \<^verbatim>\<open>handleDownload\<close>. The created anchor is a new node of the document; \<^verbatim>\<open>removeChild\<close> takes
  the node of that identity out of the children of the body.
\<close>

definition handleDownload :: "player \<Rightarrow> exn option \<times> player" where
  "handleDownload st =
     (case getItem (localStorage st) ''audioSrc'' of
        None \<Rightarrow> (None, st)
      | Some audioUrl \<Rightarrow>
          if audioUrl = [] then (None, st)
          else
            (let a = \<lparr> node_id = next_id st, tag = ''a'', href = audioUrl,
                       download = ''generated-music.wav'' \<rparr>;
                 st1 = st\<lparr>next_id := next_id st + 1, body := body st @ [a]\<rparr>;
                 st2 = emit (Click a) st1
             in (None, st2\<lparr>body := filter (\<lambda>n. node_id n \<noteq> node_id a) (body st2)\<rparr>)))"

text \<open>Several presses of the play button in a row.\<close>

fun presses :: "nat \<Rightarrow> byte list \<Rightarrow> player \<Rightarrow> player" where
  "presses 0 frame st = st"
| "presses (Suc n) frame st = presses n frame (snd (handlePlayPause frame st))"

text \<open>How often an effect has happened.\<close>

definition happened :: "effect \<Rightarrow> player \<Rightarrow> nat" where
  "happened e st = count_list (trace st) e"

section \<open>Rounding to doubles\<close>

lemma pow2_nat: "0 \<le> k \<Longrightarrow> (2 :: rat) powi k = 2 ^ nat k"
  by (simp add: power_int_def)

lemma floorlog2_bounds:
  assumes "0 < x"
  shows "2 powi floorlog2 x \<le> x \<and> x < 2 powi (floorlog2 x + 1)"
proof -
  obtain a b where q: "quotient_of x = (a, b)"
    by force
  have b: "0 < b" using q by (rule quotient_of_denom_pos)
  have x: "x = of_int a / of_int b" using q by (rule quotient_of_div)
  have a: "0 < a" using assms b by (simp add: x zero_less_divide_iff)
  let ?la = "bitlen a" and ?lb = "bitlen b"
  have la: "1 \<le> ?la" and lb: "1 \<le> ?lb"
    using a b by (simp_all add: bitlen_alt_def)
  from bitlen_bounds [OF a] have "(of_int (2 ^ nat (?la - 1)) :: rat) \<le> of_int a"
    and "(of_int a :: rat) < of_int (2 ^ nat ?la)"
    by (simp_all only: of_int_le_iff of_int_less_iff)
  then have a1: "2 powi (?la - 1) \<le> (of_int a :: rat)" and a2: "(of_int a :: rat) < 2 powi ?la"
    using la by (simp_all add: pow2_nat)
  from bitlen_bounds [OF b] have "(of_int (2 ^ nat (?lb - 1)) :: rat) \<le> of_int b"
    and "(of_int b :: rat) < of_int (2 ^ nat ?lb)"
    by (simp_all only: of_int_le_iff of_int_less_iff)
  then have b1: "2 powi (?lb - 1) \<le> (of_int b :: rat)" and b2: "(of_int b :: rat) < 2 powi ?lb"
    using lb by (simp_all add: pow2_nat)
  have bpos: "(0 :: rat) < of_int b" using b by simp
  have up: "x < 2 powi (?la - ?lb + 1)"
  proof -
    have "of_int a < (2 :: rat) powi ?la * 1" using a2 by simp
    also have "\<dots> \<le> 2 powi ?la * (of_int b / 2 powi (?lb - 1))"
      using b1 by (intro mult_left_mono) (simp_all add: pos_le_divide_eq)
    finally have "of_int a < 2 powi (?la - (?lb - 1)) * (of_int b :: rat)"
      by (simp add: power_int_diff mult_ac)
    then show ?thesis
      using bpos by (simp add: x pos_divide_less_eq algebra_simps)
  qed
  have low: "2 powi (?la - ?lb - 1) \<le> x"
  proof -
    have "2 powi (?la - ?lb - 1) * (of_int b :: rat) \<le> 2 powi (?la - ?lb - 1) * 2 powi ?lb"
      using b2 by (intro mult_left_mono) simp_all
    also have "\<dots> = 2 powi (?la - 1)"
      by (simp add: power_int_add [symmetric])
    also have "\<dots> \<le> of_int a" by (rule a1)
    finally show ?thesis
      using bpos by (simp add: x pos_le_divide_eq)
  qed
  show ?thesis
  proof (cases "2 powi (?la - ?lb) \<le> x")
    case True
    then have "floorlog2 x = ?la - ?lb" by (simp add: floorlog2_def q)
    with True up show ?thesis by simp
  next
    case False
    then have "floorlog2 x = ?la - ?lb - 1" by (simp add: floorlog2_def q)
    with False low show ?thesis by simp
  qed
qed

lemma floorlog2_mono:
  assumes "0 < x" and "x \<le> y"
  shows "floorlog2 x \<le> floorlog2 y"
proof (rule ccontr)
  assume "\<not> floorlog2 x \<le> floorlog2 y"
  then have "floorlog2 y + 1 \<le> floorlog2 x" by simp
  then have "(2 :: rat) powi (floorlog2 y + 1) \<le> 2 powi floorlog2 x"
    by (intro power_int_increasing) simp_all
  moreover have "y < 2 powi (floorlog2 y + 1)" "2 powi floorlog2 x \<le> x"
    using floorlog2_bounds [of y] floorlog2_bounds [of x] assms by simp_all
  ultimately show False using assms by simp
qed

lemma floorlog2_eq:
  assumes "2 powi k \<le> x" and "x < 2 powi (k + 1)"
  shows "floorlog2 x = k"
proof -
  have pos: "0 < x"
    using assms(1) by (rule less_le_trans [rotated]) simp
  have "floorlog2 (2 powi k) \<le> floorlog2 x"
    using assms(1) by (intro floorlog2_mono) simp_all
  note b = floorlog2_bounds [OF pos]
  have "k < floorlog2 x + 1"
  proof (rule ccontr)
    assume "\<not> k < floorlog2 x + 1"
    then have "(2 :: rat) powi (floorlog2 x + 1) \<le> 2 powi k"
      by (intro power_int_increasing) simp_all
    with b assms show False by simp
  qed
  moreover have "floorlog2 x < k + 1"
  proof (rule ccontr)
    assume "\<not> floorlog2 x < k + 1"
    then have "(2 :: rat) powi (k + 1) \<le> 2 powi floorlog2 x"
      by (intro power_int_increasing) simp_all
    with b assms show False by simp
  qed
  ultimately show ?thesis by simp
qed

lemma round_half_even_int: "round_half_even (of_int n) = n"
  by (simp add: round_half_even_def)

lemma round_half_even_le:
  assumes "z \<le> of_int n"
  shows "round_half_even z \<le> n"
proof (cases "\<lfloor>z\<rfloor> = n")
  case True
  then have "of_int n \<le> z" by (metis of_int_floor_le)
  with assms have "z = of_int n" by simp
  then show ?thesis by (simp add: round_half_even_int)
next
  case False
  moreover have "\<lfloor>z\<rfloor> \<le> n" using assms by (simp add: floor_le_iff)
  ultimately have "\<lfloor>z\<rfloor> + 1 \<le> n" by simp
  then show ?thesis by (simp add: round_half_even_def Let_def)
qed

lemma round_half_even_nonneg: "0 \<le> z \<Longrightarrow> 0 \<le> round_half_even z"
  by (simp add: round_half_even_def Let_def)



lemma floorlog2_pow2: "floorlog2 (2 powi k) = k"
  by (rule floorlog2_eq) (rule order_refl, rule power_int_strict_increasing, simp_all)

lemma exponent_mono: "0 < x \<Longrightarrow> x \<le> y \<Longrightarrow> exponent x \<le> exponent y"
  using floorlog2_mono [of x y] by (simp add: exponent_def)

lemma exponent_half:
  assumes "2 powi (- 1021) \<le> d"
  shows "exponent (d / 2) = exponent d - 1"
proof -
  have d: "0 < d"
    using assms by (rule less_le_trans [rotated]) simp
  have "floorlog2 (2 powi (- 1021)) \<le> floorlog2 d"
    using assms by (intro floorlog2_mono) simp_all
  then have big: "- 1021 \<le> floorlog2 d"
    by (simp only: floorlog2_pow2)
  note b = floorlog2_bounds [OF d]
  have "floorlog2 (d / 2) = floorlog2 d - 1"
  proof (rule floorlog2_eq)
    have "(2 :: rat) powi (floorlog2 d - 1) = 2 powi floorlog2 d / 2"
      by (simp add: power_int_diff)
    with b show "2 powi (floorlog2 d - 1) \<le> d / 2" by simp
    have "(2 :: rat) powi (floorlog2 d + 1) = 2 powi floorlog2 d * 2"
      by (simp add: power_int_add)
    with b show "d / 2 < 2 powi (floorlog2 d - 1 + 1)" by simp
  qed
  with big show ?thesis by (simp add: exponent_def)
qed

lemma round_double_pos:
  assumes "0 < x"
  shows "round_double x =
    (if overflow \<le> of_int (round_half_even (x / 2 powi exponent x)) * 2 powi exponent x
     then PInf
     else Fin (of_int (round_half_even (x / 2 powi exponent x)) * 2 powi exponent x))"
  using assms by (simp add: round_double_def Let_def)

lemma round_double_fixed:
  assumes "round_double d = Fin d" and "0 < d"
  obtains m where "d = of_int m * 2 powi exponent d" and "d < overflow"
proof -
  let ?r = "of_int (round_half_even (d / 2 powi exponent d)) * 2 powi exponent d :: rat"
  have "(if overflow \<le> ?r then PInf else Fin ?r) = Fin d"
    using assms(1) by (simp only: round_double_pos [OF assms(2)])
  then have "\<not> overflow \<le> ?r" and "?r = d"
    by (simp_all split: if_splits)
  then have "d = ?r" and "d < overflow" by simp_all
  then show thesis by (rule that)
qed

lemma round_double_le:
  assumes "0 \<le> y" and "y \<le> d" and "round_double d = Fin d"
  shows "\<exists>v. round_double y = Fin v \<and> 0 \<le> v \<and> v \<le> d"
proof (cases "y = 0")
  case True
  with assms show ?thesis by (simp add: round_double_def)
next
  case False
  with assms have y: "0 < y" and d: "0 < d" by simp_all
  let ?r = "of_int (round_half_even (y / 2 powi exponent y)) * 2 powi exponent y :: rat"
  have le: "exponent y \<le> exponent d"
    using y assms(2) by (rule exponent_mono)
  from assms(3) d obtain m where dm: "d = of_int m * 2 powi exponent d" and dlt: "d < overflow"
    by (rule round_double_fixed)
  have "2 powi exponent d = (2 :: rat) powi (exponent d - exponent y) * 2 powi exponent y"
    by (simp add: power_int_add [symmetric])
  also have "(2 :: rat) powi (exponent d - exponent y) = of_int (2 ^ nat (exponent d - exponent y))"
    using le by (simp add: pow2_nat)
  finally have ed: "(2 :: rat) powi exponent d
      = of_int (2 ^ nat (exponent d - exponent y)) * 2 powi exponent y" .
  have dn: "d = of_int (m * 2 ^ nat (exponent d - exponent y)) * 2 powi exponent y"
    using dm by (simp only: ed of_int_mult mult.assoc)
  have dq: "d / 2 powi exponent y = of_int (m * 2 ^ nat (exponent d - exponent y))"
    by (subst dn) simp
  have "y / 2 powi exponent y \<le> d / 2 powi exponent y"
    using assms(2) by (simp add: divide_right_mono)
  then have "round_half_even (y / 2 powi exponent y) \<le> m * 2 ^ nat (exponent d - exponent y)"
    unfolding dq by (rule round_half_even_le)
  then have "(of_int (round_half_even (y / 2 powi exponent y)) :: rat)
      \<le> of_int (m * 2 ^ nat (exponent d - exponent y))"
    by (simp only: of_int_le_iff)
  then have "?r \<le> of_int (m * 2 ^ nat (exponent d - exponent y)) * 2 powi exponent y"
    by (intro mult_right_mono) simp_all
  also have "\<dots> = d"
    by (rule dn [symmetric])
  finally have rd: "?r \<le> d" .
  have "0 \<le> round_half_even (y / 2 powi exponent y)"
    using y by (intro round_half_even_nonneg) simp
  then have r0: "0 \<le> ?r" by simp
  have "\<not> overflow \<le> ?r" using rd dlt by simp
  then have "round_double y = Fin ?r"
    by (simp add: round_double_pos [OF y])
  with r0 rd show ?thesis by blast
qed

lemma round_double_half:
  assumes "round_double d = Fin d" and "2 powi (- 1021) \<le> d"
  shows "round_double (d / 2) = Fin (d / 2)"
proof -
  have d: "0 < d"
    using assms(2) by (rule less_le_trans [rotated]) simp
  note eh = exponent_half [OF assms(2)]
  from assms(1) d obtain m where dm: "d = of_int m * 2 powi exponent d" and dlt: "d < overflow"
    by (rule round_double_fixed)
  have p: "(2 :: rat) powi exponent d = 2 * 2 powi (exponent d - 1)"
    by (simp add: power_int_diff)
  have dh: "d / 2 = of_int m * 2 powi (exponent d - 1)"
    using dm by (simp only: p)
  have q: "d / 2 / 2 powi (exponent d - 1) = of_int m"
    by (subst dh) simp
  have r: "of_int (round_half_even (d / 2 / 2 powi (exponent d - 1))) * 2 powi (exponent d - 1) = d / 2"
    unfolding q round_half_even_int by (rule dh [symmetric])
  have pos: "0 < d / 2" using d by simp
  have "\<not> overflow \<le> d / 2" using dlt d by simp
  then show ?thesis
    unfolding round_double_pos [OF pos] eh r by simp
qed

lemma round_double_one: "round_double 1 = Fin 1"
  by code_simp

lemma round_double_half_one: "round_double (1 / 2) = Fin (1 / 2)"
  by code_simp

text \<open>A percentage of the slider, as a fraction: a double between 0 and 1.\<close>

lemma ddiv_percent:
  assumes "0 \<le> p" and "p \<le> 100"
  shows "\<exists>q. ddiv (Fin p) (Fin 100) = Fin q \<and> 0 \<le> q \<and> q \<le> 1"
proof -
  have "0 \<le> p / 100" and "p / 100 \<le> 1"
    using assms by simp_all
  from round_double_le [OF this round_double_one]
  show ?thesis by (simp add: ddiv_def rounded_def)
qed

section \<open>The render loop\<close>

subsection \<open>The buffer and the bars of one frame\<close>

lemma getByteFrequencyData_length:
  "length (getByteFrequencyData frame array) = length array"
  by (simp add: getByteFrequencyData_def)

lemma getByteFrequencyData_full:
  "length frame = length array \<Longrightarrow> getByteFrequencyData frame array = frame"
  by (simp add: getByteFrequencyData_def)

lemma draw_fst: "fst (draw frame c l) = l\<lparr>dataArray := getByteFrequencyData frame (dataArray l)\<rparr>"
  by (simp add: draw_def Let_def)

lemma bars_none: "bufferLength l = 0 \<Longrightarrow> bars c l bw 0 x = []"
  by (subst bars.simps) simp

text \<open>
  The loop from index \<open>i\<close> on, bar by bar: the abscissa accumulated by \<^verbatim>\<open>x += barWidth + 1\<close>
  is the start value plus a multiple of the step.
\<close>

lemma bars_closed:
  "bufferLength l \<le> length (dataArray l) \<Longrightarrow> i \<le> bufferLength l \<Longrightarrow>
   bars c l (Fin w) i (Fin x) =
     concat (map (\<lambda>k. [SetFillStyle (Rgb (Fin (of_nat (unat (dataArray l ! k)) / 2 + 100)) (Fin 50) (Fin 200)),
                        FillRect (Fin (x + of_nat (k - i) * (w + 1)))
                                 (Fin (of_nat (height c) - of_nat (unat (dataArray l ! k)) / 2))
                                 (Fin w) (Fin (of_nat (unat (dataArray l ! k)) / 2))])
                 [i..<bufferLength l])"
proof (induction "bufferLength l - i" arbitrary: i x)
  case 0
  then have "i = bufferLength l" by simp
  then show ?case by (subst bars.simps) simp
next
  case (Suc d)
  then have lt: "i < bufferLength l" and d: "d = bufferLength l - (i + 1)"
    and le: "i + 1 \<le> bufferLength l"
    by simp_all
  have ih: "bars c l (Fin w) (i + 1) (Fin (x + (w + 1))) =
     concat (map (\<lambda>k. [SetFillStyle (Rgb (Fin (of_nat (unat (dataArray l ! k)) / 2 + 100)) (Fin 50) (Fin 200)),
                        FillRect (Fin ((x + (w + 1)) + of_nat (k - (i + 1)) * (w + 1)))
                                 (Fin (of_nat (height c) - of_nat (unat (dataArray l ! k)) / 2))
                                 (Fin w) (Fin (of_nat (unat (dataArray l ! k)) / 2))])
                 [i + 1..<bufferLength l])"
    using Suc.hyps(1) [OF d Suc.prems(1) le] .
  have shift: "(x + (w + 1)) + of_nat (k - (i + 1)) * (w + 1) = x + of_nat (k - i) * (w + 1)"
    if "k \<in> set [i + 1..<bufferLength l]" for k
  proof -
    from that have "k - i = Suc (k - (i + 1))" by auto
    then show ?thesis by (simp add: algebra_simps)
  qed
  have idx: "index (dataArray l) i = Fin (of_nat (unat (dataArray l ! i)))"
    using lt Suc.prems(1) by (simp add: index_def)
  have split: "[i..<bufferLength l] = i # [i + 1..<bufferLength l]"
    using lt by (simp add: upt_conv_Cons)
  have ih': "bars c l (Fin w) (i + 1) (Fin (x + (w + 1))) =
     concat (map (\<lambda>k. [SetFillStyle (Rgb (Fin (of_nat (unat (dataArray l ! k)) / 2 + 100)) (Fin 50) (Fin 200)),
                        FillRect (Fin (x + of_nat (k - i) * (w + 1)))
                                 (Fin (of_nat (height c) - of_nat (unat (dataArray l ! k)) / 2))
                                 (Fin w) (Fin (of_nat (unat (dataArray l ! k)) / 2))])
                 [i + 1..<bufferLength l])"
    unfolding ih by (rule arg_cong [where f = concat], rule map_cong [OF refl]) (simp only: shift)
  show ?case
    apply (subst bars.simps)
    apply (simp only: lt if_True Let_def idx jdiv.simps(1) jadd.simps(1) jsub_def jneg.simps ih' split)
    apply simp
    done
qed

lemma enumerate_nth_map:
  "map (\<lambda>k. g k (xs ! k)) [0..<length xs] = map (\<lambda>(k, m). g k m) (enumerate 0 xs)"
  by (rule nth_equalityI) (simp_all add: nth_enumerate_eq)

text \<open>What one call of \<^verbatim>\<open>draw\<close> does on the canvas, when the frame fills the buffer.\<close>

lemma draw_closed:
  assumes "length frame = bufferLength l" and "length (dataArray l) = bufferLength l"
  shows "snd (draw frame c l) =
     RequestAnimationFrame
     # ClearRect (Fin 0) (Fin 0) (Fin (of_nat (width c))) (Fin (of_nat (height c)))
     # concat (map (\<lambda>(i, m).
         [SetFillStyle (Rgb (Fin (of_nat (unat m) / 2 + 100)) (Fin 50) (Fin 200)),
          FillRect (Fin (of_nat i * (of_nat (width c) / of_nat (length frame) * (5 / 2) + 1)))
                   (Fin (of_nat (height c) - of_nat (unat m) / 2))
                   (Fin (of_nat (width c) / of_nat (length frame) * (5 / 2)))
                   (Fin (of_nat (unat m) / 2))])
         (enumerate 0 frame))"
proof (cases "length frame = 0")
  case True
  with assms show ?thesis by (simp add: draw_def Let_def bars_none)
next
  case False
  let ?l = "l\<lparr>dataArray := getByteFrequencyData frame (dataArray l)\<rparr>"
  let ?w = "of_nat (width c) / of_nat (length frame) * (5 / 2) :: rat"
  define g where "g = (\<lambda>i m. [SetFillStyle (Rgb (Fin (of_nat (unat m) / 2 + 100)) (Fin 50) (Fin 200)),
                        FillRect (Fin (of_nat i * (?w + 1)))
                                 (Fin (of_nat (height c) - of_nat (unat m) / 2))
                                 (Fin ?w) (Fin (of_nat (unat (m :: byte)) / 2))])"
  have da: "dataArray ?l = frame"
    using assms by (simp add: getByteFrequencyData_full)
  have bl: "bufferLength ?l = length frame"
    using assms by simp
  have bw: "jmul (jdiv (Fin (of_nat (width c))) (Fin (of_nat (bufferLength l)))) (Fin (5 / 2)) = Fin ?w"
    using False assms by simp
  have "bars c ?l (Fin ?w) 0 (Fin 0) =
     concat (map (\<lambda>k. [SetFillStyle (Rgb (Fin (of_nat (unat (dataArray ?l ! k)) / 2 + 100)) (Fin 50) (Fin 200)),
                        FillRect (Fin (0 + of_nat (k - 0) * (?w + 1)))
                                 (Fin (of_nat (height c) - of_nat (unat (dataArray ?l ! k)) / 2))
                                 (Fin ?w) (Fin (of_nat (unat (dataArray ?l ! k)) / 2))])
                 [0..<bufferLength ?l])"
    by (rule bars_closed) (simp_all only: da bl)
  also have "\<dots> = concat (map (\<lambda>k. g k (frame ! k)) [0..<length frame])"
    by (simp only: da bl g_def) simp
  also have "\<dots> = concat (map (\<lambda>(i, m). g i m) (enumerate 0 frame))"
    by (simp only: enumerate_nth_map [of g frame])
  finally have b: "bars c ?l (Fin ?w) 0 (Fin 0) = concat (map (\<lambda>(i, m). g i m) (enumerate 0 frame))" .
  show ?thesis
    by (simp only: draw_def Let_def snd_conv bw b) (simp only: g_def)
qed

text \<open>
  Claim C1, as amended. For every magnitude byte \<open>m\<close> of the frame, at its position \<open>i\<close>, the
  render loop sets the fill style to \<^verbatim>\<open>rgb(m/2 + 100, 50, 200)\<close> and fills a rectangle of height
  exactly \<open>m/2\<close> that stands on the lower edge of the canvas. The varying channel is the bar
  height plus 100, not \<open>m + 100\<close>; it stays between 100 and 227.5, so nothing is clamped. The
  frame has the length of the buffer, as the frequency data of the analyser has.
\<close>

theorem draw_bar_mapping:
  assumes "length frame = bufferLength l" and "length (dataArray l) = bufferLength l"
  shows "snd (draw frame c l) =
     RequestAnimationFrame
     # ClearRect (Fin 0) (Fin 0) (Fin (of_nat (width c))) (Fin (of_nat (height c)))
     # concat (map (\<lambda>(i, m).
         [SetFillStyle (Rgb (Fin (of_nat (unat m) / 2 + 100)) (Fin 50) (Fin 200)),
          FillRect (Fin (of_nat i * (of_nat (width c) / of_nat (length frame) * (5 / 2) + 1)))
                   (Fin (of_nat (height c) - of_nat (unat m) / 2))
                   (Fin (of_nat (width c) / of_nat (length frame) * (5 / 2)))
                   (Fin (of_nat (unat m) / 2))])
         (enumerate 0 frame))"
  using assms by (rule draw_closed)

text \<open>The two boundary values: \<open>m = 0\<close> gives height 0 and channel 100, \<open>m = 255\<close> gives 127.5 and 227.5.\<close>

theorem draw_bar_mapping_witness:
  "snd (draw [0, 255] \<lparr> width = 900, height = 300 \<rparr> \<lparr> bufferLength = 2, dataArray = [7, 9] \<rparr>) =
     [RequestAnimationFrame, ClearRect (Fin 0) (Fin 0) (Fin 900) (Fin 300),
      SetFillStyle (Rgb (Fin 100) (Fin 50) (Fin 200)),
      FillRect (Fin 0) (Fin 300) (Fin 1125) (Fin 0),
      SetFillStyle (Rgb (Fin (455 / 2)) (Fin 50) (Fin 200)),
      FillRect (Fin 1126) (Fin (345 / 2)) (Fin 1125) (Fin (255 / 2))]"
  using draw_bar_mapping [of "[0, 255]" "\<lparr> bufferLength = 2, dataArray = [7, 9] \<rparr>"
      "\<lparr> width = 900, height = 300 \<rparr>"]
  by simp

text \<open>
  Claim C1 as stated fails at \<open>m = 255\<close>: on a frame of 128 bytes 255 the first bar gets the
  channel 227.5, where \<open>m + 100\<close> clamped to the channel range is 255.
\<close>

theorem draw_channel_not_clamped_sum:
  "snd (draw (replicate 128 255) \<lparr> width = 900, height = 300 \<rparr>
          \<lparr> bufferLength = 128, dataArray = replicate 128 0 \<rparr>) ! 2
     = SetFillStyle (Rgb (Fin (455 / 2)) (Fin 50) (Fin 200)) \<and>
   SetFillStyle (Rgb (Fin (455 / 2)) (Fin 50) (Fin 200))
     \<noteq> SetFillStyle (Rgb (Fin (min 255 (max 0 (of_nat (unat (255 :: byte)) + 100)))) (Fin 50) (Fin 200))"
proof
  show "snd (draw (replicate 128 255) \<lparr> width = 900, height = 300 \<rparr>
          \<lparr> bufferLength = 128, dataArray = replicate 128 0 \<rparr>) ! 2
     = SetFillStyle (Rgb (Fin (455 / 2)) (Fin 50) (Fin 200))"
  proof -
    have r: "replicate 128 (255 :: byte) = 255 # replicate 127 255"
      using replicate_Suc [of 127 "255 :: byte"] by simp
    show ?thesis
      by (subst draw_closed) (simp_all add: r)
  qed
  show "SetFillStyle (Rgb (Fin (455 / 2)) (Fin 50) (Fin 200))
     \<noteq> SetFillStyle (Rgb (Fin (min 255 (max 0 (of_nat (unat (255 :: byte)) + 100)))) (Fin 50) (Fin 200))"
    by simp
qed

subsection \<open>Determinism\<close>

lemma rects_bars:
  "rects s (concat (map (\<lambda>p. [SetFillStyle (F p), FillRect (X p) (Y p) (W p) (H p)]) ps)) =
   map (\<lambda>p. \<lparr> fill = Some (F p), rx = X p, ry = Y p, rw = W p, rh = H p \<rparr>) ps"
  by (induction ps arbitrary: s) simp_all

lemma rects_draw:
  assumes "length frame = bufferLength l" and "length (dataArray l) = bufferLength l"
  shows "rects s (snd (draw frame c l)) =
     map (\<lambda>(i, m). \<lparr> fill = Some (Rgb (Fin (of_nat (unat m) / 2 + 100)) (Fin 50) (Fin 200)),
            rx = Fin (of_nat i * (of_nat (width c) / of_nat (length frame) * (5 / 2) + 1)),
            ry = Fin (of_nat (height c) - of_nat (unat m) / 2),
            rw = Fin (of_nat (width c) / of_nat (length frame) * (5 / 2)),
            rh = Fin (of_nat (unat m) / 2) \<rparr>) (enumerate 0 frame)"
  using rects_bars [of s "\<lambda>(i, m). Rgb (Fin (of_nat (unat (m :: byte)) / 2 + 100)) (Fin 50) (Fin 200)"
     "\<lambda>(i, m). Fin (of_nat i * (of_nat (width c) / of_nat (length frame) * (5 / 2) + 1))"
     "\<lambda>(i, m). Fin (of_nat (height c) - of_nat (unat m) / 2)"
     "\<lambda>(i, m). Fin (of_nat (width c) / of_nat (length frame) * (5 / 2))"
     "\<lambda>(i, m). Fin (of_nat (unat m) / 2)" "enumerate 0 frame"]
  by (simp add: draw_closed [OF assms] split_def)

lemma draw_independent:
  assumes "length frame = n" "bufferLength l1 = n" "length (dataArray l1) = n"
    "bufferLength l2 = n" "length (dataArray l2) = n"
  shows "snd (draw frame c l1) = snd (draw frame c l2)"
  using assms by (simp add: draw_closed)

lemma draw_fst_full:
  assumes "length frame = n" "bufferLength l = n" "length (dataArray l) = n"
  shows "bufferLength (fst (draw frame c l)) = n" "dataArray (fst (draw frame c l)) = frame"
  using assms by (simp_all add: draw_fst getByteFrequencyData_full)

lemma animate_independent:
  assumes "\<forall>f \<in> set fs. length f = n" "bufferLength l1 = n" "length (dataArray l1) = n"
    "bufferLength l2 = n" "length (dataArray l2) = n"
  shows "animate c l1 fs = animate c l2 fs"
  using assms
proof (induction fs arbitrary: l1 l2)
  case Nil
  show ?case by simp
next
  case (Cons f fs)
  then have f: "length f = n" by simp
  have "snd (draw f c l1) = snd (draw f c l2)"
    using f Cons.prems by (intro draw_independent [where n = n]) simp_all
  moreover have "animate c (fst (draw f c l1)) fs = animate c (fst (draw f c l2)) fs"
    using f Cons.prems by (intro Cons.IH) (simp_all add: draw_fst_full)
  ultimately show ?case by simp
qed

text \<open>
  Claim C9. Two runs of the render loop on the canvas of the component, each with a buffer of
  the \<open>n\<close> bins of the analyser and whatever the buffer held before, that are fed the same
  sequence of frames make the same sequence of canvas calls, frame by frame, hence paint the
  same rectangles at the same places in the same colours. And the colour and the height of a
  bar are a function of its magnitude byte alone: equal bytes give equal fill and height, at
  any two positions of any two frames, on any two canvases.
\<close>

theorem render_deterministic:
  assumes "bufferLength l1 = n" and "length (dataArray l1) = n"
    and "bufferLength l2 = n" and "length (dataArray l2) = n"
  shows "((\<forall>f \<in> set fs. length f = n) \<longrightarrow> animate c l1 fs = animate c l2 fs) \<and>
         (length f1 = n \<and> length f2 = n \<and> i < n \<and> j < n \<and> f1 ! i = f2 ! j \<longrightarrow>
          fill (rects s1 (snd (draw f1 c1 l1)) ! i) = fill (rects s2 (snd (draw f2 c2 l2)) ! j) \<and>
          rh (rects s1 (snd (draw f1 c1 l1)) ! i) = rh (rects s2 (snd (draw f2 c2 l2)) ! j))"
  using assms animate_independent [of fs n l1 l2 c]
  by (auto simp add: rects_draw nth_enumerate_eq)

theorem render_deterministic_witness:
  "length [0, 255 :: byte] = 2 \<and> length [3, 4 :: byte] = 2 \<and>
   animate \<lparr> width = 900, height = 300 \<rparr> \<lparr> bufferLength = 2, dataArray = [7, 9] \<rparr> [[0, 255], [3, 4]]
     = animate \<lparr> width = 900, height = 300 \<rparr> \<lparr> bufferLength = 2, dataArray = [0, 0] \<rparr> [[0, 255], [3, 4]] \<and>
   fill (rects None (snd (draw [5, 255] \<lparr> width = 900, height = 300 \<rparr>
                       \<lparr> bufferLength = 2, dataArray = [7, 9] \<rparr>)) ! 1)
     = fill (rects None (snd (draw [255, 1] \<lparr> width = 400, height = 200 \<rparr>
                       \<lparr> bufferLength = 2, dataArray = [0, 0] \<rparr>)) ! 0) \<and>
   rh (rects None (snd (draw [5, 255] \<lparr> width = 900, height = 300 \<rparr>
                       \<lparr> bufferLength = 2, dataArray = [7, 9] \<rparr>)) ! 1)
     = rh (rects None (snd (draw [255, 1] \<lparr> width = 400, height = 200 \<rparr>
                       \<lparr> bufferLength = 2, dataArray = [0, 0] \<rparr>)) ! 0)"
  using render_deterministic [where ?l1.0 = "\<lparr> bufferLength = 2, dataArray = [7, 9] \<rparr>" and n = 2
      and ?l2.0 = "\<lparr> bufferLength = 2, dataArray = [0, 0] \<rparr>"
      and fs = "[[0, 255], [3, 4]]" and c = "\<lparr> width = 900, height = 300 \<rparr>"
      and ?f1.0 = "[5, 255]" and ?f2.0 = "[255, 1]" and i = 1 and j = 0
      and ?s1.0 = None and ?s2.0 = None
      and ?c1.0 = "\<lparr> width = 900, height = 300 \<rparr>" and ?c2.0 = "\<lparr> width = 400, height = 200 \<rparr>"]
  by simp

section \<open>The playback controller\<close>

subsection \<open>Play and pause, and the audio tap\<close>

lemma handlePlayPause_reuse:
  "audioCtx st \<noteq> None \<Longrightarrow>
   handlePlayPause frame st =
     (None, (emit (if isPlaying st then Pause else Play) st)\<lparr>isPlaying := \<not> isPlaying st\<rparr>)"
  by (cases "audioCtx st") (simp_all add: handlePlayPause_def)

lemma bars_count:
  assumes "\<forall>s. e \<noteq> SetFillStyle s" and "\<forall>x y w h. e \<noteq> FillRect x y w h"
  shows "count_list (bars c l bw i x) e = 0"
proof (induction "bufferLength l - i" arbitrary: i x)
  case 0
  then show ?case by (subst bars.simps) simp
next
  case (Suc d)
  then have lt: "i < bufferLength l" and d: "d = bufferLength l - Suc i"
    by simp_all
  have ih: "count_list (bars c l bw (Suc i) x') e = 0" for x'
    using Suc.hyps(1) [OF d] .
  show ?case
    using assms by (subst bars.simps) (auto simp add: lt Let_def ih)
qed

lemma draw_count:
  assumes "e = NewAudioContext \<or> e = CreateAnalyser \<or> e = CreateMediaElementSource"
  shows "count_list (snd (draw frame c l)) e = 0"
  using assms by (auto simp add: draw_def Let_def bars_count)

lemma visualize_fields:
  "audioCtx (visualize frame a st) = audioCtx st"
  "analyser (visualize frame a st) = analyser st"
  "source (visualize frame a st) = source st"
  "isPlaying (visualize frame a st) = isPlaying st"
  "audioRef (visualize frame a st) = audioRef st"
  "audio_api (visualize frame a st) = audio_api st"
  by (simp_all add: visualize_def Let_def split_def split: option.splits)

lemma visualize_happened:
  assumes "e = NewAudioContext \<or> e = CreateAnalyser \<or> e = CreateMediaElementSource"
  shows "happened e (visualize frame a st) = happened e st"
  using draw_count [OF assms]
  by (simp add: visualize_def happened_def Let_def split_def split: option.splits)

lemma handlePlayPause_first:
  assumes "audioCtx st = None" and "audio_api st" and "\<not> tapped (audioRef st)"
  shows "handlePlayPause frame st =
    (None, (emit (if isPlaying st then Pause else Play)
       (visualize frame \<lparr> fftSize = 256 \<rparr>
         ((emit ConnectAnalyserToDestination (emit ConnectSourceToAnalyser
            (emit CreateMediaElementSource
              ((emit CreateAnalyser (emit NewAudioContext st))
                 \<lparr>audioRef := (audioRef st)\<lparr>tapped := True\<rparr>\<rparr>))))
           \<lparr>audioCtx := Some AudioContext, analyser := Some \<lparr> fftSize = 256 \<rparr>,
            source := Some MediaElementSource\<rparr>)))\<lparr>isPlaying := \<not> isPlaying st\<rparr>)"
  using assms by (simp add: handlePlayPause_def Let_def emit_def)

lemma happened_emit:
  "happened e (emit e' st) = happened e st + (if e' = e then 1 else 0)"
  by (simp add: happened_def emit_def)

lemma happened_isPlaying [simp]: "happened e (st\<lparr>isPlaying := b\<rparr>) = happened e st"
  by (simp add: happened_def)

lemma handlePlayPause_first_happened:
  assumes "audioCtx st = None" and "audio_api st" and "\<not> tapped (audioRef st)"
    and e: "e = NewAudioContext \<or> e = CreateAnalyser \<or> e = CreateMediaElementSource"
  shows "happened e (snd (handlePlayPause frame st)) = happened e st + 1"
proof -
  have "happened e (st'\<lparr>audioCtx := a, analyser := b, source := c\<rparr>) = happened e st'" for st' a b c
    by (simp add: happened_def)
  moreover have "happened e (st'\<lparr>audioRef := r\<rparr>) = happened e st'" for st' r
    by (simp add: happened_def)
  ultimately show ?thesis
    using e by (auto simp add: handlePlayPause_first [OF assms(1-3)] happened_emit visualize_happened)
qed

lemma handlePlayPause_first_fields:
  assumes "audioCtx st = None" and "audio_api st" and "\<not> tapped (audioRef st)"
  shows "fst (handlePlayPause frame st) = None"
    and "isPlaying (snd (handlePlayPause frame st)) = (\<not> isPlaying st)"
    and "audioCtx (snd (handlePlayPause frame st)) = Some AudioContext"
    and "analyser (snd (handlePlayPause frame st)) = Some \<lparr> fftSize = 256 \<rparr>"
    and "source (snd (handlePlayPause frame st)) = Some MediaElementSource"
  by (simp_all add: handlePlayPause_first [OF assms] emit_def visualize_fields)

lemma presses_reuse:
  assumes "audioCtx st \<noteq> None"
  shows "audioCtx (presses n frame st) = audioCtx st \<and> analyser (presses n frame st) = analyser st \<and>
         source (presses n frame st) = source st \<and>
         (e = NewAudioContext \<or> e = CreateAnalyser \<or> e = CreateMediaElementSource \<longrightarrow>
            happened e (presses n frame st) = happened e st)"
  using assms
proof (induction n arbitrary: st)
  case 0
  show ?case by simp
next
  case (Suc n)
  let ?s = "snd (handlePlayPause frame st)"
  have s: "?s = (emit (if isPlaying st then Pause else Play) st)\<lparr>isPlaying := \<not> isPlaying st\<rparr>"
    using Suc.prems by (simp add: handlePlayPause_reuse)
  have f: "audioCtx ?s = audioCtx st" "analyser ?s = analyser st" "source ?s = source st"
    by (simp_all add: s emit_def)
  have h: "happened e ?s = happened e st"
    if "e = NewAudioContext \<or> e = CreateAnalyser \<or> e = CreateMediaElementSource"
    using that by (auto simp add: s happened_emit)
  have "audioCtx ?s \<noteq> None" using Suc.prems f by simp
  from Suc.IH [OF this] show ?case
    using f h by auto
qed

text \<open>
  Claim C2. From the rest state (not playing, no audio context yet, on a platform with the
  audio API and an element without a source node) the first call of \<^verbatim>\<open>handlePlayPause\<close>
  returns normally with \<open>isPlaying\<close> true and the second with \<open>isPlaying\<close> false. Each of the
  three parts of the tap (audio context, analyser node, source node) has been constructed
  exactly once more than before after the two calls, and after any number of calls from the
  first on: every later call keeps the context, analyser and source of the first.
\<close>

theorem toggle_twice_one_tap:
  assumes "\<not> isPlaying st" and "audioCtx st = None" and "audio_api st" and "\<not> tapped (audioRef st)"
    and "e = NewAudioContext \<or> e = CreateAnalyser \<or> e = CreateMediaElementSource"
  shows "fst (handlePlayPause f1 st) = None \<and>
         isPlaying (snd (handlePlayPause f1 st)) \<and>
         fst (handlePlayPause f2 (snd (handlePlayPause f1 st))) = None \<and>
         \<not> isPlaying (snd (handlePlayPause f2 (snd (handlePlayPause f1 st)))) \<and>
         happened e (snd (handlePlayPause f2 (snd (handlePlayPause f1 st)))) = happened e st + 1 \<and>
         (\<forall>n. happened e (presses (Suc n) f1 st) = happened e st + 1 \<and>
              audioCtx (presses (Suc n) f1 st) = Some AudioContext \<and>
              analyser (presses (Suc n) f1 st) = Some \<lparr> fftSize = 256 \<rparr> \<and>
              source (presses (Suc n) f1 st) = Some MediaElementSource)"
proof -
  let ?s1 = "snd (handlePlayPause f1 st)"
  note first = handlePlayPause_first_fields [OF assms(2-4), of f1]
  have h1: "happened e ?s1 = happened e st + 1"
    using assms(2-5) by (rule handlePlayPause_first_happened)
  have ctx: "audioCtx ?s1 \<noteq> None" using first(3) by simp
  have s2: "handlePlayPause f2 ?s1 = (None, (emit Pause ?s1)\<lparr>isPlaying := False\<rparr>)"
    using assms(1) first(2) by (simp add: handlePlayPause_reuse [OF ctx])
  have h2: "happened e (snd (handlePlayPause f2 ?s1)) = happened e st + 1"
    using assms(5) h1 by (auto simp add: s2 happened_emit)
  have rest: "happened e (presses (Suc n) f1 st) = happened e st + 1 \<and>
              audioCtx (presses (Suc n) f1 st) = Some AudioContext \<and>
              analyser (presses (Suc n) f1 st) = Some \<lparr> fftSize = 256 \<rparr> \<and>
              source (presses (Suc n) f1 st) = Some MediaElementSource" for n
    using presses_reuse [OF ctx, of n f1 e] assms(5) h1 first by auto
  show ?thesis
    using assms(1) first(1,2) h2 rest by (simp add: s2)
qed

theorem toggle_twice_one_tap_witness:
  "\<not> isPlaying (initial [] 1000) \<and> audioCtx (initial [] 1000) = None \<and>
   audio_api (initial [] 1000) \<and> \<not> tapped (audioRef (initial [] 1000)) \<and>
   isPlaying (snd (handlePlayPause [] (initial [] 1000))) \<and>
   \<not> isPlaying (snd (handlePlayPause [] (snd (handlePlayPause [] (initial [] 1000))))) \<and>
   happened NewAudioContext (snd (handlePlayPause [] (snd (handlePlayPause [] (initial [] 1000))))) = 1 \<and>
   happened NewAudioContext (presses (Suc 4) [] (initial [] 1000)) = 1"
proof -
  have rest: "\<not> isPlaying (initial [] 1000)" "audioCtx (initial [] 1000) = None"
    "audio_api (initial [] 1000)" "\<not> tapped (audioRef (initial [] 1000))"
    by (simp_all add: initial_def new_Audio_def)
  have zero: "happened NewAudioContext (initial [] 1000) = 0"
    by (simp add: initial_def happened_def)
  from toggle_twice_one_tap [OF rest, of NewAudioContext "[]" "[]"]
  have "isPlaying (snd (handlePlayPause [] (initial [] 1000)))"
    and "\<not> isPlaying (snd (handlePlayPause [] (snd (handlePlayPause [] (initial [] 1000)))))"
    and "happened NewAudioContext (snd (handlePlayPause [] (snd (handlePlayPause [] (initial [] 1000)))))
           = happened NewAudioContext (initial [] 1000) + 1"
    and "happened NewAudioContext (presses (Suc 4) [] (initial [] 1000))
           = happened NewAudioContext (initial [] 1000) + 1"
    by blast+
  with rest zero show ?thesis by simp
qed

lemma loop_after_length:
  "length (dataArray (loop_after c l fs)) = length (dataArray l) \<and>
   bufferLength (loop_after c l fs) = bufferLength l"
  by (induction fs arbitrary: l) (simp_all add: draw_fst getByteFrequencyData_length)

lemma visualize_loops:
  "canvasRef st = Some cv \<Longrightarrow>
   loops (visualize frame a st) = loops st @
     [fst (draw frame (cv\<lparr>width := (innerWidth st * 9) div 10, height := 300\<rparr>)
         \<lparr> bufferLength = frequencyBinCount a, dataArray = replicate (frequencyBinCount a) 0 \<rparr>)]"
  by (simp add: visualize_def Let_def split_def)

text \<open>
  Claim C8. The first call of \<^verbatim>\<open>handlePlayPause\<close> on a mounted component starts exactly one
  render loop. Its buffer has the length of the bin count of the analysis node, which is half
  of the \<^verbatim>\<open>fftSize\<close> 256, that is 128; and after any further animation frames, whatever
  the frames delivered, the buffer and \<^verbatim>\<open>bufferLength\<close> still have the length 128: the buffer
  is refreshed in place and never resized.
\<close>

theorem buffer_length_fixed:
  assumes "audioCtx st = None" and "audio_api st" and "\<not> tapped (audioRef st)"
    and "canvasRef st = Some cv"
  shows "let st' = snd (handlePlayPause frame st); l = last (loops st') in
           loops st' = loops st @ [l] \<and>
           analyser st' = Some \<lparr> fftSize = 256 \<rparr> \<and>
           bufferLength l = frequencyBinCount \<lparr> fftSize = 256 \<rparr> \<and>
           length (dataArray l) = frequencyBinCount \<lparr> fftSize = 256 \<rparr> \<and>
           frequencyBinCount \<lparr> fftSize = 256 \<rparr> = 256 div 2 \<and>
           length (dataArray l) = 128 \<and>
           (\<forall>c fs. length (dataArray (loop_after c l fs)) = 128 \<and>
                   bufferLength (loop_after c l fs) = 128)"
proof -
  let ?st' = "snd (handlePlayPause frame st)"
  let ?l = "fst (draw frame (cv\<lparr>width := (innerWidth st * 9) div 10, height := 300\<rparr>)
         \<lparr> bufferLength = frequencyBinCount \<lparr> fftSize = 256 \<rparr>,
           dataArray = replicate (frequencyBinCount \<lparr> fftSize = 256 \<rparr>) 0 \<rparr>)"
  have lo: "loops ?st' = loops st @ [?l]"
    using assms(4) by (simp add: handlePlayPause_first [OF assms(1-3)] emit_def visualize_loops)
  have an: "analyser ?st' = Some \<lparr> fftSize = 256 \<rparr>"
    using handlePlayPause_first_fields(4) [OF assms(1-3)] .
  have n: "frequencyBinCount \<lparr> fftSize = 256 \<rparr> = 128"
    by (simp add: frequencyBinCount_def)
  have l: "bufferLength ?l = 128" "length (dataArray ?l) = 128"
    by (simp_all add: draw_fst getByteFrequencyData_length n)
  show ?thesis
    using l by (simp add: Let_def lo an n loop_after_length)
qed

theorem buffer_length_fixed_witness:
  "audioCtx (initial [] 1000) = None \<and> audio_api (initial [] 1000) \<and>
   \<not> tapped (audioRef (initial [] 1000)) \<and>
   canvasRef (initial [] 1000) = Some \<lparr> width = 300, height = 150 \<rparr> \<and>
   length (dataArray (last (loops (snd (handlePlayPause [1, 2, 3] (initial [] 1000)))))) = 128 \<and>
   length (dataArray (loop_after \<lparr> width = 900, height = 300 \<rparr>
      (last (loops (snd (handlePlayPause [1, 2, 3] (initial [] 1000))))) [[], replicate 200 7])) = 128"
proof -
  have rest: "audioCtx (initial [] 1000) = None" "audio_api (initial [] 1000)"
    "\<not> tapped (audioRef (initial [] 1000))"
    "canvasRef (initial [] 1000) = Some \<lparr> width = 300, height = 150 \<rparr>"
    by (simp_all add: initial_def new_Audio_def)
  from buffer_length_fixed [OF rest, of "[1, 2, 3]"]
  have "length (dataArray (last (loops (snd (handlePlayPause [1, 2, 3] (initial [] 1000)))))) = 128"
    and "\<forall>c fs. length (dataArray (loop_after c
           (last (loops (snd (handlePlayPause [1, 2, 3] (initial [] 1000))))) fs)) = 128"
    by (simp_all add: Let_def)
  with rest show ?thesis by blast
qed

subsection \<open>Volume\<close>

text \<open>
  Claim C6. For every \<open>v\<close> from 0 to 1, \<^verbatim>\<open>handleVolumeChange\<close> returns normally, with \<open>v\<close> as
  the volume of the state and of the audio element; after the value 0 the element has the
  volume 0, and after the value 1 that follows it has the volume 1.
\<close>

theorem volume_applied:
  assumes "0 \<le> v" and "v \<le> 1"
  shows "handleVolumeChange v st = (None, st\<lparr>volume := v, audioRef := (audioRef st)\<lparr>el_volume := v\<rparr>\<rparr>) \<and>
         el_volume (audioRef (snd (handleVolumeChange v st))) = v \<and>
         volume (snd (handleVolumeChange v st)) = v \<and>
         el_volume (audioRef (snd (handleVolumeChange 0 st))) = 0 \<and>
         el_volume (audioRef (snd (handleVolumeChange 1 (snd (handleVolumeChange 0 st))))) = 1"
  using assms by (simp add: handleVolumeChange_def set_volume_def Let_def)

theorem volume_applied_witness:
  "(0 :: rat) \<le> 3 / 10 \<and> (3 / 10 :: rat) \<le> 1 \<and>
   el_volume (audioRef (snd (handleVolumeChange (3 / 10) (initial [] 1000)))) = 3 / 10 \<and>
   volume (snd (handleVolumeChange (3 / 10) (initial [] 1000))) = 3 / 10 \<and>
   el_volume (audioRef (snd (handleVolumeChange 0 (initial [] 1000)))) = 0 \<and>
   el_volume (audioRef (snd (handleVolumeChange 1 (snd (handleVolumeChange 0 (initial [] 1000)))))) = 1"
  using volume_applied [of "3 / 10" "initial [] 1000"]
  by simp

subsection \<open>Seeking\<close>

lemma jmul_NaN_right: "jmul x NaN = NaN"
  by (cases x) simp_all

lemma handleProgressChange_unknown:
  "duration (audioRef st) = NaN \<Longrightarrow> handleProgressChange v st = (Some TypeError, st)"
  by (simp add: handleProgressChange_def dmul_def jmul_NaN_right rounded_def set_currentTime_def)

lemma handleProgressChange_target:
  assumes "duration (audioRef st) = Fin D" and "dmul (ddiv (Fin v) (Fin 100)) (Fin D) = Fin t"
    and "0 \<le> t" and "t \<le> D"
  shows "handleProgressChange v st =
           (None, st\<lparr>audioRef := (audioRef st)\<lparr>currentTime := t\<rparr>, progress := Fin v\<rparr>)"
  using assms by (simp add: handleProgressChange_def set_currentTime_def Let_def max_def min_def)

lemma dmul_fraction:
  assumes "0 \<le> q" and "q \<le> 1" and "0 \<le> D" and "round_double D = Fin D"
  shows "\<exists>t. dmul (Fin q) (Fin D) = Fin t \<and> 0 \<le> t \<and> t \<le> D"
proof -
  have "0 \<le> q * D"
    using assms by simp
  moreover have "q * D \<le> D"
    using assms mult_right_mono [of q 1 D] by simp
  ultimately show ?thesis
    using round_double_le [of "q * D" D] assms(4) by (simp add: dmul_def rounded_def)
qed

lemma handleProgressChange_finite:
  assumes "duration (audioRef st) = Fin D" and "0 \<le> D" and "round_double D = Fin D"
    and "0 \<le> p" and "p \<le> 100"
  shows "\<exists>t. dmul (ddiv (Fin p) (Fin 100)) (Fin D) = Fin t \<and> 0 \<le> t \<and> t \<le> D \<and>
             handleProgressChange p st =
               (None, st\<lparr>audioRef := (audioRef st)\<lparr>currentTime := t\<rparr>, progress := Fin p\<rparr>)"
proof -
  from ddiv_percent [OF assms(4,5)] obtain q
    where q: "ddiv (Fin p) (Fin 100) = Fin q" "0 \<le> q" "q \<le> 1"
    by blast
  from dmul_fraction [OF q(2,3) assms(2,3)] obtain t
    where t: "dmul (Fin q) (Fin D) = Fin t" "0 \<le> t" "t \<le> D"
    by blast
  have "dmul (ddiv (Fin p) (Fin 100)) (Fin D) = Fin t"
    by (simp only: q(1) t(1))
  with t(2,3) handleProgressChange_target [OF assms(1) this t(2,3)] show ?thesis
    by blast
qed

text \<open>
  Claim C5, as amended. With a known finite duration \<open>D\<close>, a double, and a percentage \<open>p\<close> from
  0 to 100, \<^verbatim>\<open>handleProgressChange\<close> returns normally, sets the progress of the state to \<open>p\<close>
  and the current time of the element to the value of \<^verbatim>\<open>(p / 100) * D\<close> in doubles, which
  lies between 0 and \<open>D\<close>: the quotient is rounded, then the product. The value 0 gives exactly
  0 and 100 gives exactly \<open>D\<close>; 50 gives exactly \<open>D / 2\<close> for every duration that is zero or
  not below \<open>2 powi (- 1021)\<close>, where the half is a double again.
\<close>

theorem seek_sets_time:
  assumes "duration (audioRef st) = Fin D" and "0 \<le> D" and "round_double D = Fin D"
    and "0 \<le> p" and "p \<le> 100"
  shows "(\<exists>t. dmul (ddiv (Fin p) (Fin 100)) (Fin D) = Fin t \<and> 0 \<le> t \<and> t \<le> D \<and>
              handleProgressChange p st =
                (None, st\<lparr>audioRef := (audioRef st)\<lparr>currentTime := t\<rparr>, progress := Fin p\<rparr>)) \<and>
         handleProgressChange 0 st =
           (None, st\<lparr>audioRef := (audioRef st)\<lparr>currentTime := 0\<rparr>, progress := Fin 0\<rparr>) \<and>
         handleProgressChange 100 st =
           (None, st\<lparr>audioRef := (audioRef st)\<lparr>currentTime := D\<rparr>, progress := Fin 100\<rparr>) \<and>
         (D = 0 \<or> 2 powi (- 1021) \<le> D \<longrightarrow>
            handleProgressChange 50 st =
              (None, st\<lparr>audioRef := (audioRef st)\<lparr>currentTime := D / 2\<rparr>, progress := Fin 50\<rparr>))"
proof -
  have zero: "round_double 0 = Fin 0"
    by (simp add: round_double_def)
  have "dmul (ddiv (Fin 0) (Fin 100)) (Fin D) = Fin 0"
    by (simp add: dmul_def ddiv_def rounded_def zero)
  from handleProgressChange_target [OF assms(1) this] assms(2)
  have p0: "handleProgressChange 0 st =
      (None, st\<lparr>audioRef := (audioRef st)\<lparr>currentTime := 0\<rparr>, progress := Fin 0\<rparr>)"
    by simp
  have "dmul (ddiv (Fin 100) (Fin 100)) (Fin D) = Fin D"
    by (simp add: dmul_def ddiv_def rounded_def round_double_one assms(3))
  from handleProgressChange_target [OF assms(1) this] assms(2)
  have p100: "handleProgressChange 100 st =
      (None, st\<lparr>audioRef := (audioRef st)\<lparr>currentTime := D\<rparr>, progress := Fin 100\<rparr>)"
    by simp
  have p50: "handleProgressChange 50 st =
      (None, st\<lparr>audioRef := (audioRef st)\<lparr>currentTime := D / 2\<rparr>, progress := Fin 50\<rparr>)"
    if "D = 0 \<or> 2 powi (- 1021) \<le> D"
  proof -
    have "round_double (D / 2) = Fin (D / 2)"
      using that zero round_double_half [OF assms(3)] by auto
    then have "dmul (ddiv (Fin 50) (Fin 100)) (Fin D) = Fin (D / 2)"
      by (simp add: dmul_def ddiv_def rounded_def round_double_half_one)
    from handleProgressChange_target [OF assms(1) this] assms(2)
    show ?thesis by simp
  qed
  from handleProgressChange_finite [OF assms] p0 p100 p50 show ?thesis
    by blast
qed

theorem seek_sets_time_witness:
  "duration (audioRef ((initial [] 1000)\<lparr>audioRef := new_Audio\<lparr>duration := Fin 180\<rparr>\<rparr>)) = Fin 180 \<and>
   (0 :: rat) \<le> 180 \<and> round_double 180 = Fin 180 \<and> (0 :: rat) \<le> 25 \<and> (25 :: rat) \<le> 100 \<and>
   fst (handleProgressChange 25
      ((initial [] 1000)\<lparr>audioRef := new_Audio\<lparr>duration := Fin 180\<rparr>\<rparr>)) = None \<and>
   progress (snd (handleProgressChange 25
      ((initial [] 1000)\<lparr>audioRef := new_Audio\<lparr>duration := Fin 180\<rparr>\<rparr>))) = Fin 25 \<and>
   currentTime (audioRef (snd (handleProgressChange 0
      ((initial [] 1000)\<lparr>audioRef := new_Audio\<lparr>duration := Fin 180\<rparr>\<rparr>)))) = 0 \<and>
   currentTime (audioRef (snd (handleProgressChange 100
      ((initial [] 1000)\<lparr>audioRef := new_Audio\<lparr>duration := Fin 180\<rparr>\<rparr>)))) = 180 \<and>
   currentTime (audioRef (snd (handleProgressChange 50
      ((initial [] 1000)\<lparr>audioRef := new_Audio\<lparr>duration := Fin 180\<rparr>\<rparr>)))) = 90"
proof -
  let ?st = "(initial [] 1000)\<lparr>audioRef := new_Audio\<lparr>duration := Fin 180\<rparr>\<rparr>"
  have d: "duration (audioRef ?st) = Fin 180"
    by simp
  have r: "round_double 180 = Fin 180"
    by code_simp
  have "(2 :: rat) powi (- 1021) \<le> 2 powi 0"
    by (rule power_int_increasing) simp_all
  then have big: "180 = (0 :: rat) \<or> 2 powi (- 1021) \<le> (180 :: rat)"
    by simp
  from seek_sets_time [OF d _ r, of 25] big
  have "\<exists>t. handleProgressChange 25 ?st =
            (None, ?st\<lparr>audioRef := (audioRef ?st)\<lparr>currentTime := t\<rparr>, progress := Fin 25\<rparr>)"
    and "handleProgressChange 0 ?st =
            (None, ?st\<lparr>audioRef := (audioRef ?st)\<lparr>currentTime := 0\<rparr>, progress := Fin 0\<rparr>)"
    and "handleProgressChange 100 ?st =
            (None, ?st\<lparr>audioRef := (audioRef ?st)\<lparr>currentTime := 180\<rparr>, progress := Fin 100\<rparr>)"
    and "handleProgressChange 50 ?st =
            (None, ?st\<lparr>audioRef := (audioRef ?st)\<lparr>currentTime := 180 / 2\<rparr>, progress := Fin 50\<rparr>)"
    by auto
  with r show ?thesis by auto
qed

text \<open>
  Claim C5 as stated fails: on a track of 200 seconds the slider value 7 sets the current time
  to \<open>14 + 1 / 2 ^ 49\<close> (the double printed as 14.000000000000002), where \<open>(7 / 100) * 200\<close> is
  14. The quotient 7/100 is not a double, and the rounded quotient times 200 rounds upwards.
\<close>

theorem seek_rounds_product:
  "duration (audioRef ((initial [(''audioSrc'', ''blob:track'')] 1000)
      \<lparr>audioRef := new_Audio\<lparr>duration := Fin 200\<rparr>\<rparr>)) = Fin 200 \<and>
   round_double 200 = Fin 200 \<and>
   currentTime (audioRef (snd (handleProgressChange 7
      ((initial [(''audioSrc'', ''blob:track'')] 1000)
          \<lparr>audioRef := new_Audio\<lparr>duration := Fin 200\<rparr>\<rparr>)))) = 14 + 1 / 2 ^ 49 \<and>
   (14 + 1 / 2 ^ 49 :: rat) \<noteq> 7 / 100 * 200"
proof -
  have q: "ddiv (Fin 7) (Fin 100) = Fin (1261007895663739 / 18014398509481984)"
    by code_simp
  have t: "dmul (Fin (1261007895663739 / 18014398509481984)) (Fin 200) = Fin (14 + 1 / 2 ^ 49)"
    by code_simp
  have r: "round_double 200 = Fin 200"
    by code_simp
  let ?st = "(initial [(''audioSrc'', ''blob:track'')] 1000)\<lparr>audioRef := new_Audio\<lparr>duration := Fin 200\<rparr>\<rparr>"
  have d: "duration (audioRef ?st) = Fin 200"
    by simp
  have "dmul (ddiv (Fin 7) (Fin 100)) (Fin 200) = Fin (14 + 1 / 2 ^ 49)"
    by (simp only: q t)
  from handleProgressChange_target [OF d this]
  have "handleProgressChange 7 ?st =
      (None, ?st\<lparr>audioRef := (audioRef ?st)\<lparr>currentTime := 14 + 1 / 2 ^ 49\<rparr>, progress := Fin 7\<rparr>)"
    by simp
  then have "currentTime (audioRef (snd (handleProgressChange 7 ?st))) = 14 + 1 / 2 ^ 49"
    by simp
  with d r show ?thesis by simp
qed

text \<open>
  Claim C4, as amended. For a percentage \<open>p\<close> from 0 to 100: with the duration zero
  \<^verbatim>\<open>handleProgressChange\<close> returns normally, with the current time 0 and the progress \<open>p\<close>;
  with an unknown duration (NaN) the target is NaN, its assignment to \<^verbatim>\<open>currentTime\<close> raises
  TypeError, and neither the element nor the state has changed.
\<close>

theorem seek_zero_or_unknown_duration:
  assumes "0 \<le> p" and "p \<le> 100"
  shows "(duration (audioRef st) = Fin 0 \<longrightarrow>
            handleProgressChange p st =
              (None, st\<lparr>audioRef := (audioRef st)\<lparr>currentTime := 0\<rparr>, progress := Fin p\<rparr>)) \<and>
         (duration (audioRef st) = NaN \<longrightarrow> handleProgressChange p st = (Some TypeError, st))"
proof -
  have "handleProgressChange p st =
          (None, st\<lparr>audioRef := (audioRef st)\<lparr>currentTime := 0\<rparr>, progress := Fin p\<rparr>)"
    if "duration (audioRef st) = Fin 0"
  proof -
    have "round_double 0 = Fin 0"
      by (simp add: round_double_def)
    from handleProgressChange_finite [OF that _ this assms] obtain t
      where "0 \<le> t" "t \<le> 0" and
        "handleProgressChange p st =
           (None, st\<lparr>audioRef := (audioRef st)\<lparr>currentTime := t\<rparr>, progress := Fin p\<rparr>)"
      by auto
    then show ?thesis by simp
  qed
  then show ?thesis
    by (simp add: handleProgressChange_unknown)
qed

theorem seek_zero_or_unknown_duration_witness:
  "(0 :: rat) \<le> 50 \<and> (50 :: rat) \<le> 100 \<and>
   duration (audioRef ((initial [] 1000)\<lparr>audioRef := new_Audio\<lparr>duration := Fin 0\<rparr>\<rparr>)) = Fin 0 \<and>
   fst (handleProgressChange 50 ((initial [] 1000)\<lparr>audioRef := new_Audio\<lparr>duration := Fin 0\<rparr>\<rparr>)) = None \<and>
   duration (audioRef (initial [] 1000)) = NaN \<and>
   handleProgressChange 50 (initial [] 1000) = (Some TypeError, initial [] 1000)"
proof -
  have z: "duration (audioRef ((initial [] 1000)\<lparr>audioRef := new_Audio\<lparr>duration := Fin 0\<rparr>\<rparr>)) = Fin 0"
    by simp
  have n: "duration (audioRef (initial [] 1000)) = NaN"
    by (simp add: initial_def new_Audio_def)
  have b: "(0 :: rat) \<le> 50" "(50 :: rat) \<le> 100"
    by simp_all
  from seek_zero_or_unknown_duration [OF b, of "(initial [] 1000)\<lparr>audioRef := new_Audio\<lparr>duration := Fin 0\<rparr>\<rparr>"] z
  have "fst (handleProgressChange 50 ((initial [] 1000)\<lparr>audioRef := new_Audio\<lparr>duration := Fin 0\<rparr>\<rparr>)) = None"
    by simp
  moreover from seek_zero_or_unknown_duration [OF b, of "initial [] 1000"] n
  have "handleProgressChange 50 (initial [] 1000) = (Some TypeError, initial [] 1000)"
    by blast
  ultimately show ?thesis using z n by simp
qed

text \<open>
  Claim C4 as stated fails: on the component mounted with a source whose metadata has not
  been loaded, moving the seek slider to 50 raises TypeError.
\<close>

theorem seek_unknown_duration_raises:
  "fst (mount (initial [(''audioSrc'', ''blob:track'')] 1000)) = None \<and>
   duration (audioRef (snd (mount (initial [(''audioSrc'', ''blob:track'')] 1000)))) = NaN \<and>
   fst (handleProgressChange 50 (snd (mount (initial [(''audioSrc'', ''blob:track'')] 1000))))
     = Some TypeError"
proof -
  have m: "fst (mount (initial [(''audioSrc'', ''blob:track'')] 1000)) = None"
    and d: "duration (audioRef (snd (mount (initial [(''audioSrc'', ''blob:track'')] 1000)))) = NaN"
    by (simp_all add: mount_def initial_def new_Audio_def falsy_def getItem_def set_volume_def Let_def)
  from m d handleProgressChange_unknown [OF d, of 50] show ?thesis
    by simp
qed

subsection \<open>The end of the track\<close>

lemma fold_run_listener:
  "fold run_listener ls st =
     st\<lparr>progress := (if TimeUpdateListener \<in> set ls
                      then dmul (ddiv (Fin (currentTime (audioRef st))) (duration (audioRef st))) (Fin 100)
                      else progress st),
        isPlaying := (if EndedListener \<in> set ls then False else isPlaying st)\<rparr>"
proof (induction ls arbitrary: st)
  case Nil
  show ?case by simp
next
  case (Cons a ls)
  show ?case by (cases a) (simp_all add: Cons.IH)
qed

lemma dispatchEvent_audioRef: "audioRef (dispatchEvent name st) = audioRef st"
  by (simp add: dispatchEvent_def fold_run_listener)

text \<open>
  Claim C7. On an element that carries the listener of the mount effect, the \<^verbatim>\<open>ended\<close> event
  leaves \<open>isPlaying\<close> false, whatever it was, and a second delivery changes nothing more; the
  listener itself only sets \<open>isPlaying\<close> to false and is idempotent. Dispatch and listener are
  total: nothing is raised. The mount effect registers the listener whenever a source is
  stored.
\<close>

theorem ended_sets_not_playing:
  assumes "(''ended'', EndedListener) \<in> set (listeners (audioRef st))"
  shows "\<not> isPlaying (dispatchEvent ''ended'' st) \<and>
         dispatchEvent ''ended'' (dispatchEvent ''ended'' st) = dispatchEvent ''ended'' st \<and>
         run_listener EndedListener st = st\<lparr>isPlaying := False\<rparr> \<and>
         run_listener EndedListener (run_listener EndedListener st) = run_listener EndedListener st \<and>
         (\<not> falsy (getItem (localStorage st0) ''audioSrc'') \<and> 0 \<le> volume st0 \<and> volume st0 \<le> 1 \<longrightarrow>
            fst (mount st0) = None \<and>
            (''ended'', EndedListener) \<in> set (listeners (audioRef (snd (mount st0)))))"
proof -
  let ?ls = "map snd (filter (\<lambda>p. fst p = ''ended'') (listeners (audioRef st)))"
  have mem: "EndedListener \<in> set ?ls"
    using assms by force
  have d: "dispatchEvent ''ended'' st' = fold run_listener ?ls st'" if "audioRef st' = audioRef st" for st'
    using that by (simp add: dispatchEvent_def)
  have 1: "\<not> isPlaying (dispatchEvent ''ended'' st)"
    using mem by (simp add: d fold_run_listener)
  have 2: "dispatchEvent ''ended'' (dispatchEvent ''ended'' st) = dispatchEvent ''ended'' st"
    by (simp add: d [of "dispatchEvent ''ended'' st"] dispatchEvent_audioRef)
       (simp add: d fold_run_listener)
  have 3: "fst (mount st0) = None \<and> (''ended'', EndedListener) \<in> set (listeners (audioRef (snd (mount st0))))"
    if "\<not> falsy (getItem (localStorage st0) ''audioSrc'')" "0 \<le> volume st0" "volume st0 \<le> 1"
    using that by (simp add: mount_def set_volume_def Let_def)
  show ?thesis
    using 1 2 3 by simp
qed

theorem ended_sets_not_playing_witness:
  "(''ended'', EndedListener) \<in> set (listeners (audioRef
      ((snd (mount (initial [(''audioSrc'', ''blob:track'')] 1000)))\<lparr>isPlaying := True\<rparr>))) \<and>
   isPlaying ((snd (mount (initial [(''audioSrc'', ''blob:track'')] 1000)))\<lparr>isPlaying := True\<rparr>) \<and>
   \<not> isPlaying (dispatchEvent ''ended''
      ((snd (mount (initial [(''audioSrc'', ''blob:track'')] 1000)))\<lparr>isPlaying := True\<rparr>)) \<and>
   \<not> isPlaying (dispatchEvent ''ended'' (dispatchEvent ''ended''
      ((snd (mount (initial [(''audioSrc'', ''blob:track'')] 1000)))\<lparr>isPlaying := True\<rparr>))) \<and>
   getItem (localStorage (initial [(''audioSrc'', ''blob:track'')] 1000)) ''audioSrc'' = Some ''blob:track'' \<and>
   volume (initial [(''audioSrc'', ''blob:track'')] 1000) = 1 \<and>
   fst (mount (initial [(''audioSrc'', ''blob:track'')] 1000)) = None"
proof -
  let ?init = "initial [(''audioSrc'', ''blob:track'')] 1000"
  let ?s = "(snd (mount ?init))\<lparr>isPlaying := True\<rparr>"
  have reg: "(''ended'', EndedListener) \<in> set (listeners (audioRef ?s))"
    by (simp add: mount_def initial_def new_Audio_def falsy_def getItem_def set_volume_def Let_def)
  have src: "getItem (localStorage ?init) ''audioSrc'' = Some ''blob:track''" "volume ?init = 1"
    by (simp_all add: initial_def getItem_def)
  then have "\<not> falsy (getItem (localStorage ?init) ''audioSrc'') \<and> 0 \<le> volume ?init \<and> volume ?init \<le> 1"
    by (simp add: falsy_def)
  with reg src ended_sets_not_playing [OF reg, of ?init] show ?thesis by simp
qed

subsection \<open>Download\<close>

lemma handleDownload_none:
  "falsy (getItem (localStorage st) ''audioSrc'') \<Longrightarrow> handleDownload st = (None, st)"
  by (auto simp add: handleDownload_def falsy_def)

lemma handleDownload_some:
  assumes "getItem (localStorage st) ''audioSrc'' = Some url" and "url \<noteq> []"
  shows "handleDownload st =
    (None, st\<lparr>next_id := next_id st + 1,
              trace := trace st @ [Click \<lparr> node_id = next_id st, tag = ''a'', href = url,
                                            download = ''generated-music.wav'' \<rparr>],
              body := filter (\<lambda>n. node_id n \<noteq> next_id st) (body st)\<rparr>)"
  using assms by (simp add: handleDownload_def Let_def emit_def)

text \<open>
  Claim C10. Without a stored source (\<^verbatim>\<open>null\<close> or the empty string) \<^verbatim>\<open>handleDownload\<close> returns
  normally and leaves the whole state as it was: no node is created, nothing is clicked. With
  a source it returns normally, clicks one anchor with the source as \<^verbatim>\<open>href\<close> and the fixed
  file name, and the anchor is no longer among the children of the body afterwards: they are
  the children of before (ids of existing nodes lie below the next free id).
\<close>

theorem download_noop_or_cleanup:
  "(falsy (getItem (localStorage st) ''audioSrc'') \<longrightarrow> handleDownload st = (None, st)) \<and>
   (getItem (localStorage st) ''audioSrc'' = Some url \<and> url \<noteq> [] \<longrightarrow>
      fst (handleDownload st) = None \<and>
      trace (snd (handleDownload st)) =
        trace st @ [Click \<lparr> node_id = next_id st, tag = ''a'', href = url,
                              download = ''generated-music.wav'' \<rparr>] \<and>
      (\<forall>n \<in> set (body (snd (handleDownload st))). node_id n \<noteq> next_id st) \<and>
      set (body (snd (handleDownload st))) \<subseteq> set (body st) \<and>
      ((\<forall>n \<in> set (body st). node_id n < next_id st) \<longrightarrow>
         body (snd (handleDownload st)) = body st))"
proof -
  have "filter (\<lambda>n. node_id n \<noteq> next_id st) (body st) = body st"
    if "\<forall>n \<in> set (body st). node_id n < next_id st"
    using that by (intro filter_True) auto
  then show ?thesis
    by (auto simp add: handleDownload_none handleDownload_some)
qed

theorem download_noop_or_cleanup_witness:
  "falsy (getItem (localStorage (initial [] 1000)) ''audioSrc'') \<and>
   handleDownload (initial [] 1000) = (None, initial [] 1000) \<and>
   getItem (localStorage ((initial [(''audioSrc'', ''blob:track'')] 1000)
      \<lparr>body := [\<lparr> node_id = 0, tag = ''div'', href = [], download = [] \<rparr>], next_id := 1\<rparr>))
      ''audioSrc'' = Some ''blob:track'' \<and>
   fst (handleDownload ((initial [(''audioSrc'', ''blob:track'')] 1000)
      \<lparr>body := [\<lparr> node_id = 0, tag = ''div'', href = [], download = [] \<rparr>], next_id := 1\<rparr>)) = None \<and>
   trace (snd (handleDownload ((initial [(''audioSrc'', ''blob:track'')] 1000)
      \<lparr>body := [\<lparr> node_id = 0, tag = ''div'', href = [], download = [] \<rparr>], next_id := 1\<rparr>)))
     = [Click \<lparr> node_id = 1, tag = ''a'', href = ''blob:track'', download = ''generated-music.wav'' \<rparr>] \<and>
   body (snd (handleDownload ((initial [(''audioSrc'', ''blob:track'')] 1000)
      \<lparr>body := [\<lparr> node_id = 0, tag = ''div'', href = [], download = [] \<rparr>], next_id := 1\<rparr>)))
     = [\<lparr> node_id = 0, tag = ''div'', href = [], download = [] \<rparr>]"
  using download_noop_or_cleanup [of "initial [] 1000" "[]"]
    download_noop_or_cleanup [of "(initial [(''audioSrc'', ''blob:track'')] 1000)
      \<lparr>body := [\<lparr> node_id = 0, tag = ''div'', href = [], download = [] \<rparr>], next_id := 1\<rparr>" "''blob:track''"]
  by (simp add: initial_def getItem_def falsy_def)

subsection \<open>A component without a source\<close>

lemma mount_no_source:
  "falsy (getItem (localStorage st) ''audioSrc'') \<Longrightarrow>
   mount st = (None, emit (Warn ''No audio URL found in localStorage'') st)"
  by (simp add: mount_def)

text \<open>The component after the mount effect has run without a stored source.\<close>

lemma no_source_state:
  assumes "falsy (getItem storage ''audioSrc'')"
  shows "mount (initial storage w) =
           (None, emit (Warn ''No audio URL found in localStorage'') (initial storage w))"
    and "audioRef (emit (Warn ''No audio URL found in localStorage'') (initial storage w)) = new_Audio"
    and "localStorage (emit (Warn ''No audio URL found in localStorage'') (initial storage w)) = storage"
    and "audioCtx (emit (Warn ''No audio URL found in localStorage'') (initial storage w)) = None"
    and "audio_api (emit (Warn ''No audio URL found in localStorage'') (initial storage w))"
    and "\<not> isPlaying (emit (Warn ''No audio URL found in localStorage'') (initial storage w))"
    and "happened NewAudioContext
           (emit (Warn ''No audio URL found in localStorage'') (initial storage w)) = 0"
proof -
  have "localStorage (initial storage w) = storage"
    by (simp add: initial_def)
  with assms show "mount (initial storage w) =
           (None, emit (Warn ''No audio URL found in localStorage'') (initial storage w))"
    by (simp add: mount_no_source)
qed (simp_all add: emit_def initial_def happened_def)

text \<open>
  Claim C3, as amended. On a component constructed without a stored source the mount effect
  logs the warning, raises nothing and changes nothing else: the element has no source and no
  listener, so no native event changes the state, and \<^verbatim>\<open>handleDownload\<close> does nothing. A seek
  changes neither the state nor the element, but it is not silent: the duration is unknown
  and \<^verbatim>\<open>handleProgressChange\<close> raises TypeError. The other controls are not disabled:
  \<^verbatim>\<open>handlePlayPause\<close> returns normally, constructs the audio tap and leaves \<open>isPlaying\<close> true,
  and \<^verbatim>\<open>handleVolumeChange\<close> with a value from 0 to 1 sets the volume of the state and the
  element.
\<close>

theorem no_source_mount_only_warns:
  assumes "falsy (getItem storage ''audioSrc'')"
  shows "mount (initial storage w) =
           (None, emit (Warn ''No audio URL found in localStorage'') (initial storage w)) \<and>
         src (audioRef (snd (mount (initial storage w)))) = None \<and>
         listeners (audioRef (snd (mount (initial storage w)))) = [] \<and>
         dispatchEvent name (snd (mount (initial storage w))) = snd (mount (initial storage w)) \<and>
         handleDownload (snd (mount (initial storage w))) = (None, snd (mount (initial storage w))) \<and>
         handleProgressChange p (snd (mount (initial storage w)))
           = (Some TypeError, snd (mount (initial storage w))) \<and>
         fst (handlePlayPause frame (snd (mount (initial storage w)))) = None \<and>
         isPlaying (snd (handlePlayPause frame (snd (mount (initial storage w))))) \<and>
         audioCtx (snd (handlePlayPause frame (snd (mount (initial storage w))))) = Some AudioContext \<and>
         analyser (snd (handlePlayPause frame (snd (mount (initial storage w)))))
           = Some \<lparr> fftSize = 256 \<rparr> \<and>
         source (snd (handlePlayPause frame (snd (mount (initial storage w)))))
           = Some MediaElementSource \<and>
         happened NewAudioContext (snd (handlePlayPause frame (snd (mount (initial storage w))))) = 1 \<and>
         (0 \<le> v \<and> v \<le> 1 \<longrightarrow>
            fst (handleVolumeChange v (snd (mount (initial storage w)))) = None \<and>
            volume (snd (handleVolumeChange v (snd (mount (initial storage w))))) = v \<and>
            el_volume (audioRef (snd (handleVolumeChange v (snd (mount (initial storage w)))))) = v)"
proof -
  let ?s = "emit (Warn ''No audio URL found in localStorage'') (initial storage w)"
  note f = no_source_state [OF assms, of w]
  have ev: "dispatchEvent name ?s = ?s"
    by (simp add: dispatchEvent_def f new_Audio_def)
  have dl: "handleDownload ?s = (None, ?s)"
    using assms by (simp add: handleDownload_none f)
  have sk: "handleProgressChange p ?s = (Some TypeError, ?s)"
    by (rule handleProgressChange_unknown) (simp add: f new_Audio_def)
  have rest: "audioCtx ?s = None" "audio_api ?s" "\<not> tapped (audioRef ?s)"
    by (simp_all add: f new_Audio_def)
  have pp: "fst (handlePlayPause frame ?s) = None" "isPlaying (snd (handlePlayPause frame ?s))"
    "audioCtx (snd (handlePlayPause frame ?s)) = Some AudioContext"
    "analyser (snd (handlePlayPause frame ?s)) = Some \<lparr> fftSize = 256 \<rparr>"
    "source (snd (handlePlayPause frame ?s)) = Some MediaElementSource"
    using handlePlayPause_first_fields [OF rest, of frame] f(6) by simp_all
  have tap: "happened NewAudioContext (snd (handlePlayPause frame ?s)) = 1"
    using handlePlayPause_first_happened [OF rest, of NewAudioContext frame] f(7) by simp
  have vol: "fst (handleVolumeChange v ?s) = None \<and> volume (snd (handleVolumeChange v ?s)) = v \<and>
             el_volume (audioRef (snd (handleVolumeChange v ?s))) = v" if "0 \<le> v" "v \<le> 1"
    using that by (simp add: handleVolumeChange_def set_volume_def Let_def)
  have el: "src (audioRef ?s) = None" "listeners (audioRef ?s) = []"
    by (simp_all add: f new_Audio_def)
  show ?thesis
    unfolding f(1) snd_conv using ev dl sk pp tap vol el by simp
qed

theorem no_source_mount_only_warns_witness:
  "falsy (getItem [] ''audioSrc'') \<and>
   mount (initial [] 1000) = (None, emit (Warn ''No audio URL found in localStorage'') (initial [] 1000)) \<and>
   trace (snd (mount (initial [] 1000))) = [Warn ''No audio URL found in localStorage''] \<and>
   dispatchEvent ''ended'' (snd (mount (initial [] 1000))) = snd (mount (initial [] 1000)) \<and>
   handleProgressChange 50 (snd (mount (initial [] 1000)))
     = (Some TypeError, snd (mount (initial [] 1000))) \<and>
   isPlaying (snd (handlePlayPause [] (snd (mount (initial [] 1000))))) \<and>
   happened NewAudioContext (snd (handlePlayPause [] (snd (mount (initial [] 1000))))) = 1 \<and>
   (0 :: rat) \<le> 1 / 2 \<and> (1 / 2 :: rat) \<le> 1 \<and>
   el_volume (audioRef (snd (handleVolumeChange (1 / 2) (snd (mount (initial [] 1000)))))) = 1 / 2"
proof -
  have h: "falsy (getItem [] ''audioSrc'')"
    by (simp add: falsy_def getItem_def)
  have t: "trace (emit (Warn ''No audio URL found in localStorage'') (initial [] 1000))
             = [Warn ''No audio URL found in localStorage'']"
    by (simp add: emit_def initial_def)
  from h t no_source_mount_only_warns [OF h, of 1000 "''ended''" 50 "[]" "1 / 2"] show ?thesis
    by auto
qed

text \<open>
  Claim C3 as stated fails: without a source, one press of the play button turns \<open>isPlaying\<close>
  from false to true, the volume slider moves the volume of the element from 1 to 1/2, and a
  seek raises TypeError.
\<close>

theorem no_source_controls_live:
  "falsy (getItem [] ''audioSrc'') \<and>
   fst (mount (initial [] 1000)) = None \<and>
   \<not> isPlaying (snd (mount (initial [] 1000))) \<and>
   el_volume (audioRef (snd (mount (initial [] 1000)))) = 1 \<and>
   fst (handlePlayPause [] (snd (mount (initial [] 1000)))) = None \<and>
   isPlaying (snd (handlePlayPause [] (snd (mount (initial [] 1000))))) \<and>
   el_volume (audioRef (snd (handleVolumeChange (1 / 2) (snd (mount (initial [] 1000)))))) = 1 / 2 \<and>
   fst (handleProgressChange 50 (snd (mount (initial [] 1000)))) = Some TypeError"
proof -
  let ?s = "emit (Warn ''No audio URL found in localStorage'') (initial [] 1000)"
  have h: "falsy (getItem [] ''audioSrc'')"
    by (simp add: falsy_def getItem_def)
  note f = no_source_state [OF h, of 1000]
  have rest: "audioCtx ?s = None" "audio_api ?s" "\<not> tapped (audioRef ?s)"
    by (simp_all add: f new_Audio_def)
  have pp: "fst (handlePlayPause [] ?s) = None" "isPlaying (snd (handlePlayPause [] ?s))"
    using handlePlayPause_first_fields(1,2) [OF rest, of "[]"] f(6) by simp_all
  have vol: "el_volume (audioRef (snd (handleVolumeChange (1 / 2) ?s))) = 1 / 2"
    by (simp add: handleVolumeChange_def set_volume_def Let_def)
  have sk: "fst (handleProgressChange 50 ?s) = Some TypeError"
    by (simp add: handleProgressChange_unknown f new_Audio_def)
  show ?thesis
    unfolding f(1) fst_conv snd_conv using h pp vol sk f(6) by (simp add: f new_Audio_def)
qed

end
